theory Spec2Isabelle
  imports Complex_Main
begin

section \<open>Data model\<close>

text \<open>
  Tensors are nested lists, outermost dimension first; singleton dimensions that the
  source only inserts and squeezes again are left out. Tensors that hold whole numbers
  (masks, hard alignments, durations) have \<open>int\<close> entries. Raw duration predictions are
  reals. Pitch values are float32 numbers: each is the real number it denotes, and every
  arithmetic operation on them rounds its result to float32.
\<close>

datatype error = AssertionError | IndexError | RuntimeError | InvalidLengthError

section \<open>Valid output lengths handed to the diffusion model\<close>

text \<open>
  Both orchestrators compute
  \<^verbatim>\<open>out_len = torch.stack([duration.sum() + 1 for duration in ...], dim=0)\<close>
  over \<open>alignment_hard\<close> (training) and over \<open>durations_pred\<close> (inference).
\<close>

definition forward_out_len :: "int list list \<Rightarrow> int list" where
  "forward_out_len alignment_hard = map (\<lambda>duration. sum_list duration + 1) alignment_hard"

definition inference_out_len :: "int list list \<Rightarrow> int list" where
  "inference_out_len durations_pred = map (\<lambda>duration. sum_list duration + 1) durations_pred"

section \<open>Rounding of the predicted durations\<close>

text \<open>
  \<open>torch.round\<close> rounds to the nearest whole number, a tie to the even neighbour. The
  result is the whole number that the rounded float holds.
\<close>

definition torch_round :: "real \<Rightarrow> int" where
  "torch_round x =
     (let f = \<lfloor>x\<rfloor>; r = x - of_int f
      in if r < 1 / 2 then f
         else if 1 / 2 < r then f + 1
         else if even f then f else f + 1)"

text \<open>
  \<open>inference\<close>: \<^verbatim>\<open>durations_pred = torch.round(durations_pred) * 1.0\<close>, the tensor that
  is then passed to \<open>generate_attn\<close>.
\<close>

definition inference_durations :: "real list list \<Rightarrow> int list list" where
  "inference_durations durations_pred = map (map (\<lambda>d. torch_round d * 1)) durations_pred"

section \<open>Float32 arithmetic\<close>

text \<open>
  A finite float32 value is the real number it denotes. \<open>float32 x\<close> is \<open>x\<close> rounded to
  the nearest float32 value, a tie to the even significand: float32 values around \<open>x\<close>
  are the whole multiples of 2 to the power \<open>float32_ulp_exponent x\<close> (24 significant
  bits; below 2 to the power -126 the spacing stays that of the subnormal numbers).
  Overflow to infinity is not modelled: every value below is far smaller than 2 to the
  power 128.
\<close>

definition float32_ulp_exponent :: "real \<Rightarrow> int" where
  "float32_ulp_exponent x = max (- 126) \<lfloor>log 2 \<bar>x\<bar>\<rfloor> - 23"

definition float32 :: "real \<Rightarrow> real" where
  "float32 x =
     (if x = 0 then 0
      else of_int (torch_round (x / 2 powi float32_ulp_exponent x)) * 2 powi float32_ulp_exponent x)"





section \<open>Pitch transforms\<close>







section \<open>Prompt segment size and remaining mask\<close>

text \<open>
  \<open>forward\<close>:
  \<^verbatim>\<open>p_size = random.randint(self.diff_segment_size-16, self.diff_segment_size+16)\<close>
  \<open>random.randint a b\<close> returns a whole number between \<open>a\<close> and \<open>b\<close>, both included;
  \<open>randint a b\<close> is the set of values one draw may return.
\<close>

definition randint :: "int \<Rightarrow> int \<Rightarrow> int set" where
  "randint a b = {a..b}"

text \<open>\<open>torch.min\<close> of a one-dimensional tensor; it raises on an empty tensor.\<close>

definition torch_min :: "int list \<Rightarrow> error + int" where
  "torch_min xs = (case xs of [] \<Rightarrow> Inl RuntimeError | x # rest \<Rightarrow> Inr (fold min rest x))"

text \<open>\<^verbatim>\<open>int(m * 0.5)\<close>: Python's \<open>int\<close> truncates towards zero.\<close>

definition int_half :: "int \<Rightarrow> int" where
  "int_half m = (if 0 \<le> m then m div 2 else - ((- m) div 2))"

text \<open>
  \<^verbatim>\<open>
  if torch.min(latents_lengths).item() > p_size:
      seg_size_std = p_size
  else:
      seg_size_std = int(torch.min(latents_lengths).item() * 0.5)
  \<close>
\<close>

definition seg_size_std :: "int \<Rightarrow> int list \<Rightarrow> error + int" where
  "seg_size_std p_size latents_lengths =
     (case torch_min latents_lengths of
        Inl e \<Rightarrow> Inl e
      | Inr m \<Rightarrow> Inr (if m > p_size then p_size else int_half m))"

text \<open>
  A bound \<open>k\<close> of a Python slice over a dimension of size \<open>n\<close>: a negative bound counts
  from the end, and the result is clipped to the dimension.
\<close>

definition slice_bound :: "nat \<Rightarrow> int \<Rightarrow> nat" where
  "slice_bound n k = (if k < 0 then nat (max 0 (int n + k)) else min n (nat k))"

text \<open>
  \<^verbatim>\<open>
  remaining_mask = torch.ones_like(latents, dtype=torch.bool)
  for i in range(latents.size(0)):
      remaining_mask[i, :, segment_indices[i] : segment_indices[i] + seg_size_std] = 0
  \<close>
  \<open>remaining_mask_row\<close> is one row \<open>remaining_mask[i, c, :]\<close> after the slice assignment;
  the assignment writes the same row for every channel \<open>c\<close>. The shape of \<open>latents\<close> is
  \<open>(B, C, T)\<close>; reading \<open>segment_indices[i]\<close> beyond its end raises.
\<close>

definition remaining_mask_row :: "nat \<Rightarrow> int \<Rightarrow> int \<Rightarrow> bool list" where
  "remaining_mask_row T start stop =
     map (\<lambda>t. \<not> (slice_bound T start \<le> t \<and> t < slice_bound T stop)) [0..<T]"

definition remaining_mask :: "nat \<times> nat \<times> nat \<Rightarrow> int list \<Rightarrow> int \<Rightarrow> error + bool list list list" where
  "remaining_mask shape segment_indices seg =
     (case shape of (B, C, T) \<Rightarrow>
        if length segment_indices < B then Inl IndexError
        else Inr (map (\<lambda>i. replicate C
                    (remaining_mask_row T (segment_indices ! i) (segment_indices ! i + seg)))
                  [0..<B]))"

section \<open>Sequence masks\<close>

text \<open>
  Modelled from the spec: \<open>sequence_mask\<close> is imported from \<open>TTS.tts.utils.helpers\<close>,
  which is not among the sources. Section 4.1 of the specification: the result has one
  row per length and \<open>max_len\<close> columns, \<open>mask[b][t] = (t < lengths[b])\<close>; \<open>max_len\<close>
  defaults to the maximum of \<open>lengths\<close>; a negative length fails with
  \<open>InvalidLengthError\<close>.
\<close>

definition sequence_mask :: "int list \<Rightarrow> int option \<Rightarrow> error + bool list list" where
  "sequence_mask lengths max_len =
     (if \<exists>l \<in> set lengths. l < 0 then Inl InvalidLengthError
      else let m = (case max_len of None \<Rightarrow> fold max lengths 0 | Some m \<Rightarrow> m)
           in Inr (map (\<lambda>l. map (\<lambda>t. int t < l) [0..<nat m]) lengths))"

text \<open>\<^verbatim>\<open>.float()\<close> and \<^verbatim>\<open>.to(dr.dtype)\<close> on a boolean mask.\<close>

definition to_dtype :: "bool list list \<Rightarrow> int list list" where
  "to_dtype m = map (map of_bool) m"

text \<open>
  The row of such a mask, as numbers, for a sequence of \<open>l\<close> valid positions padded to
  \<open>n\<close>.
\<close>

definition mask_row :: "int \<Rightarrow> nat \<Rightarrow> int list" where
  "mask_row l n = map (\<lambda>t. of_bool (int t < l)) [0..<n]"

text \<open>
  \<^verbatim>\<open>attn_mask = torch.unsqueeze(x_mask, -1) * torch.unsqueeze(y_mask, 2)\<close>
  For one utterance the product has the entry \<open>x_mask[i] * y_mask[j]\<close> at \<open>(i, j)\<close>; the
  batch dimensions of the two masks agree.
\<close>

definition outer_mask :: "int list \<Rightarrow> int list \<Rightarrow> int list list" where
  "outer_mask x_mask y_mask = map (\<lambda>a. map (\<lambda>b. a * b) y_mask) x_mask"

definition attn_mask :: "int list list \<Rightarrow> int list list \<Rightarrow> int list list list" where
  "attn_mask x_mask y_mask = map2 outer_mask x_mask y_mask"

section \<open>Hard alignments\<close>

text \<open>
  Modelled from the spec: the hard alignment of section 3 as a matrix, which the absent
  \<open>maximum_path\<close> returns. It is the 0/1 matrix over (phoneme, frame) that assigns
  frame \<open>j\<close> to phoneme \<open>path ! j\<close>, for the frames that \<open>path\<close> covers, and is zero
  elsewhere.
\<close>

definition path_matrix :: "nat \<Rightarrow> nat \<Rightarrow> nat list \<Rightarrow> int list list" where
  "path_matrix Tx Ty path =
     map (\<lambda>i. map (\<lambda>j. if j < length path \<and> path ! j = i then 1 else 0) [0..<Ty]) [0..<Tx]"

text \<open>
  The hard alignments of section 3 of the specification, for the padded shape \<open>Tx\<close> by
  \<open>Ty\<close> and an utterance of \<open>tx\<close> valid phonemes and \<open>ty\<close> valid frames: a 0/1 matrix,
  covering frames only up to the valid length (ones lie in the valid region), one-hot
  per frame (every valid frame has exactly one phoneme), and with a phoneme index that
  does not decrease as the frame index increases.
\<close>

definition hard_alignment :: "int list list \<Rightarrow> nat \<Rightarrow> nat \<Rightarrow> nat \<Rightarrow> nat \<Rightarrow> bool" where
  "hard_alignment H Tx Ty tx ty \<longleftrightarrow>
     length H = Tx \<and> (\<forall>i < Tx. length (H ! i) = Ty) \<and> tx \<le> Tx \<and> ty \<le> Ty
     \<and> (\<forall>i < Tx. \<forall>j < Ty. H ! i ! j = 1 \<or> H ! i ! j = 0)
     \<and> (\<forall>i < Tx. \<forall>j < Ty. H ! i ! j = 1 \<longrightarrow> i < tx \<and> j < ty)
     \<and> (\<forall>j < ty. \<exists>!i. i < Tx \<and> H ! i ! j = 1)
     \<and> (\<forall>j j' i i'. j \<le> j' \<and> j' < ty \<and> i < Tx \<and> i' < Tx
            \<and> H ! i ! j = 1 \<and> H ! i' ! j' = 1 \<longrightarrow> i \<le> i')"

section \<open>Monotonic alignment search\<close>

text \<open>Entries of the soft alignment are floats: a number or NaN.\<close>

datatype fl = NaN | Num real

text \<open>
  Modelled from the spec: the scores of the search in \<open>maximum_path\<close>, which is imported
  from \<open>TTS.tts.utils.helpers\<close> and is not among the sources. Section 4.2 of the
  specification has the search operate in log space, with minus infinity for an
  unreachable position; the logarithm of 0 is minus infinity. \<open>score_ge a b\<close> is
  \<open>a \<ge> b\<close>, \<open>score_max\<close> the larger of two scores.
\<close>

datatype score = NegInf | Score real

fun log_score :: "fl \<Rightarrow> score" where
  "log_score (Num p) = (if p \<le> 0 then NegInf else Score (ln p))"
| "log_score NaN = NegInf"

fun score_add :: "score \<Rightarrow> score \<Rightarrow> score" where
  "score_add (Score a) (Score b) = Score (a + b)"
| "score_add _ _ = NegInf"

fun score_ge :: "score \<Rightarrow> score \<Rightarrow> bool" where
  "score_ge _ NegInf = True"
| "score_ge NegInf (Score _) = False"
| "score_ge (Score a) (Score b) = (b \<le> a)"

definition score_max :: "score \<Rightarrow> score \<Rightarrow> score" where
  "score_max a b = (if score_ge a b then a else b)"

text \<open>
  Modelled from the spec: whether position \<open>(i, j)\<close> lies inside the mask that
  \<open>maximum_path\<close> receives (section 4.2: positions outside the mask are excluded).
\<close>

definition mask_at :: "int list list \<Rightarrow> nat \<Rightarrow> nat \<Rightarrow> bool" where
  "mask_at msk i j = (i < length msk \<and> j < length (msk ! i) \<and> msk ! i ! j \<noteq> 0)"

text \<open>
  Modelled from the spec: the table of \<open>maximum_path\<close>, which is imported from
  \<open>TTS.tts.utils.helpers\<close> and is not among the sources. Section 4.2 of the
  specification: \<open>best[i][j]\<close> is the maximum cumulative log-probability of a monotonic
  path that reaches phoneme \<open>i\<close> at frame \<open>j\<close>,
  \<open>best[i][j] = log P[i][j] + max(best[i][j-1], best[i-1][j-1])\<close>, base case
  \<open>best[0][0] = log P[0][0]\<close>, positions outside the mask unreachable (minus infinity).
  Phoneme 0 has no previous phoneme.
\<close>

fun best :: "fl list list \<Rightarrow> int list list \<Rightarrow> nat \<Rightarrow> nat \<Rightarrow> score" where
  "best P msk i 0 = (if i = 0 \<and> mask_at msk 0 0 then log_score (P ! 0 ! 0) else NegInf)"
| "best P msk i (Suc j) =
     (if mask_at msk i (Suc j)
      then score_add (log_score (P ! i ! Suc j))
             (score_max (best P msk i j) (if i = 0 then NegInf else best P msk (i - 1) j))
      else NegInf)"

text \<open>
  Modelled from the spec: one step of the backtracking of the absent \<open>maximum_path\<close>.
  Section 4.2 of the specification: at each step choose whichever predecessor (same
  phoneme at the previous frame, or previous phoneme at the previous frame) has the
  larger value, a tie in favour of staying on the same phoneme. \<open>predecessor P mask i j\<close>
  is the phoneme of frame \<open>j\<close> when frame \<open>j + 1\<close> has phoneme \<open>i\<close>.
\<close>

definition predecessor :: "fl list list \<Rightarrow> int list list \<Rightarrow> nat \<Rightarrow> nat \<Rightarrow> nat" where
  "predecessor P msk i j =
     (if score_ge (best P msk i j) (if i = 0 then NegInf else best P msk (i - 1) j)
      then i else i - 1)"

text \<open>
  Modelled from the spec: the backtracking of the absent \<open>maximum_path\<close> (section 4.2).
  \<open>backtrack P mask i j\<close> is the phoneme of each of the frames \<open>0, ..., j\<close> when frame
  \<open>j\<close> has phoneme \<open>i\<close>.
\<close>

fun backtrack :: "fl list list \<Rightarrow> int list list \<Rightarrow> nat \<Rightarrow> nat \<Rightarrow> nat list" where
  "backtrack P msk i 0 = [i]"
| "backtrack P msk i (Suc j) = backtrack P msk (predecessor P msk i j) j @ [i]"

text \<open>
  Modelled from the spec: the utterance's own valid-length sub-rectangle of the mask
  that the absent \<open>maximum_path\<close> receives (section 4.2). \<open>valid_phonemes\<close> is the
  number of valid phonemes, read off the first frame.
\<close>

definition valid_phonemes :: "int list list \<Rightarrow> nat" where
  "valid_phonemes msk = length (filter (\<lambda>row. row \<noteq> [] \<and> hd row \<noteq> 0) msk)"

text \<open>
  Modelled from the spec: the number of valid frames of the mask that the absent
  \<open>maximum_path\<close> receives, read off the first phoneme.
\<close>

definition valid_frames :: "int list list \<Rightarrow> nat" where
  "valid_frames msk = (case msk of [] \<Rightarrow> 0 | row # _ \<Rightarrow> length (filter (\<lambda>m. m \<noteq> 0) row))"

text \<open>The padded number of frames of a tensor over (phoneme, frame).\<close>

definition dim_frames :: "'a list list \<Rightarrow> nat" where
  "dim_frames msk = (case msk of [] \<Rightarrow> 0 | row # _ \<Rightarrow> length row)"

text \<open>
  Modelled from the spec: \<open>maximum_path\<close> for one utterance; the function is imported
  from \<open>TTS.tts.utils.helpers\<close> and is not among the sources. Section 4.2 of the
  specification: backtrack from the last valid phoneme at the last valid frame of the
  utterance's own valid sub-rectangle, and output the hard alignment matrix. A mask
  without a valid position has no path.
\<close>

definition maximum_path1 :: "fl list list \<Rightarrow> int list list \<Rightarrow> int list list" where
  "maximum_path1 P msk =
     (let tx = valid_phonemes msk; ty = valid_frames msk;
          path = (if tx = 0 \<or> ty = 0 then [] else backtrack P msk (tx - 1) (ty - 1))
      in path_matrix (length msk) (dim_frames msk) path)"

text \<open>
  Modelled from the spec: the absent \<open>maximum_path\<close> on a batch. Section 4.2 of the
  specification: it operates independently per utterance.
\<close>

definition maximum_path :: "fl list list list \<Rightarrow> int list list list \<Rightarrow> int list list list" where
  "maximum_path value msk = map2 maximum_path1 value msk"

text \<open>
  \<open>_forward_aligner\<close>, with the output \<open>alignment_soft\<close> of the alignment network (an
  external collaborator) as its input, one \<open>T_de\<close> by \<open>T_en\<close> matrix per utterance:
  \<^verbatim>\<open>
  attn_mask = torch.unsqueeze(x_mask, -1) * torch.unsqueeze(y_mask, 2)
  alignment_soft, alignment_logprob = self.aligner(y.transpose(1, 2), x, x_mask, None)
  assert not torch.isnan(alignment_soft).any()
  alignment_mas = maximum_path(
      alignment_soft.squeeze(1).transpose(1, 2).contiguous(), attn_mask.squeeze(1).contiguous()
  )
  alignment_hard = torch.sum(alignment_mas, -1).float()
  \<close>
  The result is the pair of \<open>alignment_hard\<close> and \<open>alignment_mas\<close>.
\<close>

definition forward_aligner ::
  "fl list list list \<Rightarrow> int list list \<Rightarrow> int list list
     \<Rightarrow> error + (int list list \<times> int list list list)" where
  "forward_aligner alignment_soft x_mask y_mask =
     (let msk = attn_mask x_mask y_mask
      in if NaN \<in> set (concat (concat alignment_soft)) then Inl AssertionError
         else let alignment_mas = maximum_path (map transpose alignment_soft) msk;
                  alignment_hard = map (map sum_list) alignment_mas
              in Inr (alignment_hard, alignment_mas))"

text \<open>
  \<open>forward\<close>, from the lengths to the aligner:
  \<^verbatim>\<open>
  tokens_mask = torch.unsqueeze(sequence_mask(tokens_lens, tokens.shape[1]), 1).float()
  mel_mask = torch.unsqueeze(sequence_mask(mel_lens, None), 1).float()
  alignment_hard, alignment_soft, alignment_logprob, alignment_mas = self._forward_aligner(
      phoneme_enc, mel.transpose(1, 2), tokens_mask, mel_mask)
  \<close>
  \<open>T_en\<close> is \<open>tokens.shape[1]\<close>.
\<close>

definition forward_alignment ::
  "int list \<Rightarrow> nat \<Rightarrow> int list \<Rightarrow> fl list list list
     \<Rightarrow> error + (int list list \<times> int list list list)" where
  "forward_alignment tokens_lens T_en mel_lens alignment_soft =
     (case sequence_mask tokens_lens (Some (int T_en)) of
        Inl e \<Rightarrow> Inl e
      | Inr tokens_mask \<Rightarrow>
          (case sequence_mask mel_lens None of
             Inl e \<Rightarrow> Inl e
           | Inr mel_mask \<Rightarrow>
               forward_aligner alignment_soft (to_dtype tokens_mask) (to_dtype mel_mask)))"

section \<open>Expansion map from durations\<close>

text \<open>
  Modelled from the spec: \<open>generate_path\<close> for one utterance; the function is imported
  from \<open>TTS.tts.utils.helpers\<close> and is not among the sources. Section 4.3 of the
  specification: it builds the frame-level one-hot assignment matrix directly from the
  per-phoneme durations, so phoneme \<open>i\<close> owns the \<open>dr ! i\<close> frames that follow the frames
  of the phonemes before it; the result has the shape of the mask and is zero where the
  mask is.
\<close>

definition generate_path1 :: "int list \<Rightarrow> int list list \<Rightarrow> int list list" where
  "generate_path1 dr msk =
     map (\<lambda>i. map (\<lambda>j. (if sum_list (take i dr) \<le> int j \<and> int j < sum_list (take (Suc i) dr)
                         then 1 else 0) * msk ! i ! j)
                [0..<length (msk ! i)])
         [0..<length msk]"

text \<open>Modelled from the spec: the absent \<open>generate_path\<close> on a batch, utterance by utterance.\<close>

definition generate_path :: "int list list \<Rightarrow> int list list list \<Rightarrow> int list list list" where
  "generate_path dr msk = map2 generate_path1 dr msk"

text \<open>
  \<open>generate_attn\<close>:
  \<^verbatim>\<open>
  if y_mask is None:
      y_lengths = dr.sum(1).long()
      y_lengths[y_lengths < 1] = 1
      y_mask = torch.unsqueeze(sequence_mask(y_lengths, None), 1).to(dr.dtype)
  attn_mask = torch.unsqueeze(x_mask, -1) * torch.unsqueeze(y_mask, 2)
  attn = generate_path(dr, attn_mask.squeeze(1)).to(dr.dtype)
  return attn
  \<close>
  \<open>generate_attn_y_lengths\<close> is \<open>y_lengths\<close> after the second line of the branch.
\<close>

definition generate_attn_y_lengths :: "int list list \<Rightarrow> int list" where
  "generate_attn_y_lengths dr =
     (let y_lengths = map sum_list dr
      in map (\<lambda>l. if l < 1 then 1 else l) y_lengths)"

definition generate_attn ::
  "int list list \<Rightarrow> int list list \<Rightarrow> int list list option \<Rightarrow> error + int list list list" where
  "generate_attn dr x_mask y_mask =
     (case (case y_mask of
              None \<Rightarrow>
                (case sequence_mask (generate_attn_y_lengths dr) None of
                   Inl e \<Rightarrow> Inl e
                 | Inr m \<Rightarrow> Inr (to_dtype m))
            | Some m \<Rightarrow> Inr m) of
        Inl e \<Rightarrow> Inl e
      | Inr y_mask' \<Rightarrow> Inr (generate_path dr (attn_mask x_mask y_mask')))"

section \<open>Prompt segment size: properties\<close>

lemma fold_min_Min: "fold min xs (x::int) = Min (insert x (set xs))"
proof (induction xs arbitrary: x)
  case Nil
  show ?case by simp
next
  case (Cons y ys)
  have "Min (insert (min y x) (set ys)) = Min (insert x (insert y (set ys)))"
    by (cases "set ys = {}") (simp_all add: min.commute min.left_commute)
  with Cons show ?case by (simp add: insert_commute)
qed

lemma torch_min_Min: "xs \<noteq> [] \<Longrightarrow> torch_min xs = Inr (Min (set xs))"
  by (cases xs) (simp_all add: torch_min_def fold_min_Min)

text \<open>
  C5 as stated fails. With the drawn size 48 and latent lengths 1 and 100 the effective
  segment size is 0, below 1. With the drawn size 40 and lengths 30 and 100 no utterance
  is shorter than half the drawn size, yet the size used for both is 15 and not 40.
\<close>

theorem seg_size_std_counterexample:
  "48 \<in> randint (48 - 16) (48 + 16) \<and> seg_size_std 48 [1, 100] = Inr 0 \<and> \<not> (1 \<le> (0::int))
   \<and> 40 \<in> randint (48 - 16) (48 + 16) \<and> seg_size_std 40 [30, 100] = Inr 15
   \<and> \<not> (30 < (40::int) div 2) \<and> (15::int) \<noteq> 40"
  by (simp add: randint_def seg_size_std_def torch_min_def int_half_def)

text \<open>
  C5, amended. For every batch a single target size is drawn once, within 16 of the
  configured base size, and a single effective segment size is used for every utterance
  of the batch: the drawn size when every latent length of the batch exceeds it,
  otherwise half the shortest latent length of the batch, rounded down. The effective
  size never exceeds the length of any utterance of the batch, and it is at least 1
  when the base size exceeds 16 and every utterance has at least two frames.
\<close>

theorem seg_size_std_batch:
  assumes draw: "p_size \<in> randint (diff_segment_size - 16) (diff_segment_size + 16)"
    and nonempty: "latents_lengths \<noteq> []"
    and nonneg: "\<forall>l \<in> set latents_lengths. 0 \<le> l"
  shows "\<exists>s. seg_size_std p_size latents_lengths = Inr s
           \<and> diff_segment_size - 16 \<le> p_size \<and> p_size \<le> diff_segment_size + 16
           \<and> ((\<forall>l \<in> set latents_lengths. p_size < l) \<longrightarrow> s = p_size)
           \<and> (\<not> (\<forall>l \<in> set latents_lengths. p_size < l) \<longrightarrow> s = Min (set latents_lengths) div 2)
           \<and> (\<forall>l \<in> set latents_lengths. s \<le> l)
           \<and> (16 < diff_segment_size \<and> (\<forall>l \<in> set latents_lengths. 2 \<le> l) \<longrightarrow> 1 \<le> s)"
proof -
  let ?m = "Min (set latents_lengths)"
  let ?s = "if ?m > p_size then p_size else int_half ?m"
  have fin: "finite (set latents_lengths)" and ne: "set latents_lengths \<noteq> {}"
    using nonempty by simp_all
  have m_in: "?m \<in> set latents_lengths" using fin ne by (rule Min_in)
  have m_le: "?m \<le> l" if "l \<in> set latents_lengths" for l using that by simp
  have m_nonneg: "0 \<le> ?m" using m_in nonneg by blast
  have all_iff: "(\<forall>l \<in> set latents_lengths. p_size < l) \<longleftrightarrow> p_size < ?m"
    using fin ne by simp
  have eq: "seg_size_std p_size latents_lengths = Inr ?s"
    using nonempty by (simp add: seg_size_std_def torch_min_Min)
  have window: "diff_segment_size - 16 \<le> p_size \<and> p_size \<le> diff_segment_size + 16"
    using draw by (simp add: randint_def)
  have half: "int_half ?m = ?m div 2" using m_nonneg by (simp add: int_half_def)
  have le_all: "?s \<le> l" if "l \<in> set latents_lengths" for l
    using m_le [OF that] m_nonneg half by (auto split: if_splits)
  have ge_one: "1 \<le> ?s" if "16 < diff_segment_size" "\<forall>l \<in> set latents_lengths. 2 \<le> l"
  proof -
    have "2 \<le> ?m" using that(2) m_in by blast
    moreover have "1 \<le> p_size" using that(1) window by linarith
    ultimately show ?thesis using half by auto
  qed
  show ?thesis
    using eq window all_iff half le_all ge_one by (intro exI [of _ ?s]) auto
qed

theorem seg_size_std_batch_witness:
  "(40::int) \<in> randint (48 - 16) (48 + 16) \<and> [30, 100 :: int] \<noteq> []
   \<and> 0 \<le> (30::int) \<and> 0 \<le> (100::int) \<and> \<not> (40 < (30::int))
   \<and> seg_size_std 40 [30, 100] = Inr (Min (set [30, 100]) div 2)
   \<and> seg_size_std 40 [30, 100] = Inr 15"
  using seg_size_std_batch [of 40 48 "[30, 100]"]
  by (simp add: randint_def seg_size_std_def torch_min_def int_half_def)

section \<open>Remaining mask: properties\<close>

lemma remaining_mask_row_nth:
  "t < T \<Longrightarrow> remaining_mask_row T start stop ! t
     = (\<not> (slice_bound T start \<le> t \<and> t < slice_bound T stop))"
  by (simp add: remaining_mask_row_def)

lemma slice_bound_inside: "0 \<le> k \<Longrightarrow> k \<le> int n \<Longrightarrow> slice_bound n k = nat k"
  by (simp add: slice_bound_def)

text \<open>
  C6. For every utterance \<open>i\<close> of the batch and every channel \<open>c\<close>, the remaining mask is
  false exactly on the positions of the sampled prompt segment, which starts at
  \<open>segment_indices ! i\<close>, has \<open>seg\<close> frames and lies inside the latent sequence (as the
  sampler draws it), and true on every other position: the false positions are the
  segment's positions, the true positions are disjoint from them, and both together are
  all \<open>T\<close> positions of the latent sequence.
\<close>

theorem remaining_mask_complement:
  assumes len: "B \<le> length segment_indices"
    and i: "i < B" and c: "c < C"
    and start: "0 \<le> segment_indices ! i" and seg: "0 \<le> seg"
    and fits: "segment_indices ! i + seg \<le> int T"
  shows "\<exists>m. remaining_mask (B, C, T) segment_indices seg = Inr m
           \<and> length m = B \<and> length (m ! i) = C \<and> length (m ! i ! c) = T
           \<and> {t. t < T \<and> \<not> m ! i ! c ! t}
               = {nat (segment_indices ! i) ..< nat (segment_indices ! i + seg)}
           \<and> {t. t < T \<and> m ! i ! c ! t}
               \<inter> {nat (segment_indices ! i) ..< nat (segment_indices ! i + seg)} = {}
           \<and> {t. t < T \<and> m ! i ! c ! t}
               \<union> {nat (segment_indices ! i) ..< nat (segment_indices ! i + seg)} = {..<T}"
proof -
  let ?s = "segment_indices ! i"
  let ?m = "map (\<lambda>i. replicate C (remaining_mask_row T (segment_indices ! i) (segment_indices ! i + seg)))
              [0..<B]"
  have eq: "remaining_mask (B, C, T) segment_indices seg = Inr ?m"
    using len by (simp add: remaining_mask_def)
  have row: "?m ! i ! c = remaining_mask_row T ?s (?s + seg)"
    using i c by simp
  have lo: "slice_bound T ?s = nat ?s"
    using start seg fits by (intro slice_bound_inside) linarith+
  have hi: "slice_bound T (?s + seg) = nat (?s + seg)"
    using start seg fits by (intro slice_bound_inside) linarith+
  have hiT: "nat (?s + seg) \<le> T" using fits by linarith
  have nth: "?m ! i ! c ! t = (\<not> (nat ?s \<le> t \<and> t < nat (?s + seg)))" if "t < T" for t
    using that by (simp only: row remaining_mask_row_nth lo hi)
  have false_set: "{t. t < T \<and> \<not> ?m ! i ! c ! t} = {nat ?s ..< nat (?s + seg)}"
    using nth hiT by (auto simp del: nth_map)
  have true_set: "{t. t < T \<and> ?m ! i ! c ! t} = {..<T} - {nat ?s ..< nat (?s + seg)}"
    using nth by (auto simp del: nth_map)
  have lens: "length ?m = B \<and> length (?m ! i) = C \<and> length (?m ! i ! c) = T"
    using i c by (simp add: remaining_mask_row_def)
  have sub: "{nat ?s ..< nat (?s + seg)} \<subseteq> {..<T}" using hiT by auto
  show ?thesis
    apply (intro exI [of _ ?m] conjI)
    subgoal by (rule eq)
    subgoal using lens by blast
    subgoal using lens by blast
    subgoal using lens by blast
    subgoal by (rule false_set)
    subgoal unfolding true_set by blast
    subgoal unfolding true_set using sub by blast
    done
qed

theorem remaining_mask_complement_witness:
  "(1::nat) \<le> length [1 :: int] \<and> (0::nat) < 1 \<and> (0::nat) < 1
   \<and> 0 \<le> [1 :: int] ! 0 \<and> (0::int) \<le> 2 \<and> [1 :: int] ! 0 + 2 \<le> int 4
   \<and> remaining_mask (1, 1, 4) [1] 2 = Inr [[[True, False, False, True]]]
   \<and> {t. t < (4::nat) \<and> \<not> [[[True, False, False, True]]] ! 0 ! 0 ! t} = {1 ..< 3}"
  using remaining_mask_complement [where B = 1 and segment_indices = "[1]" and i = 0
      and c = 0 and C = 1 and seg = 2 and T = 4]
  by (simp add: remaining_mask_def remaining_mask_row_def slice_bound_def upt_conv_Cons)

section \<open>Output lengths: properties\<close>

text \<open>
  C9 as stated fails: for the durations 2, 2, 1 the length handed to the diffusion model
  is 6, the sum of the durations is 5.
\<close>

theorem out_len_counterexample:
  "forward_out_len [[2, 2, 1]] = [6] \<and> inference_out_len [[2, 2, 1]] = [6]
   \<and> forward_out_len [[2, 2, 1]] \<noteq> [sum_list [2, 2, 1]]
   \<and> inference_out_len [[2, 2, 1]] \<noteq> [sum_list [2, 2, 1]]"
  by (simp add: forward_out_len_def inference_out_len_def)

text \<open>
  C9, amended. For every utterance the valid output length that either orchestrator
  passes to the diffusion model is the sum of that utterance's per-phoneme durations
  plus one, and there is one such length per utterance.
\<close>

theorem out_len_sum_plus_one:
  "length (forward_out_len ds) = length ds \<and> length (inference_out_len ds) = length ds
   \<and> (\<forall>b < length ds. forward_out_len ds ! b = sum_list (ds ! b) + 1
                     \<and> inference_out_len ds ! b = sum_list (ds ! b) + 1)"
  by (simp add: forward_out_len_def inference_out_len_def)

theorem out_len_sum_plus_one_witness:
  "0 < length [[2, 2, 1 :: int]]
   \<and> forward_out_len [[2, 2, 1]] ! 0 = sum_list ([[2, 2, 1]] ! 0) + 1
   \<and> inference_out_len [[2, 2, 1]] ! 0 = sum_list ([[2, 2, 1]] ! 0) + 1
   \<and> forward_out_len [[2, 2, 1]] ! 0 = 6"
  using out_len_sum_plus_one [of "[[2, 2, 1]]"] by simp

section \<open>Rounding of the predicted durations: properties\<close>

lemma torch_round_near: "\<bar>of_int (torch_round x) - x\<bar> \<le> 1 / 2"
proof -
  have "of_int \<lfloor>x\<rfloor> \<le> x" "x < of_int \<lfloor>x\<rfloor> + 1" by linarith+
  then show ?thesis
    unfolding torch_round_def Let_def by (auto simp: abs_le_iff)
qed

text \<open>
  C4 as stated fails: a raw prediction of -1.6 is rounded to -2 and stays negative; the
  claim would have it clamped to 0.
\<close>

theorem inference_durations_counterexample:
  "inference_durations [[- 8 / 5]] = [[- 2]]
   \<and> inference_durations [[- 8 / 5]] \<noteq> [[max 0 (torch_round (- 8 / 5))]]"
  by (simp add: inference_durations_def torch_round_def Let_def)

text \<open>
  C4, amended. The per-phoneme durations that the inference orchestrator uses to build
  the expansion map are the raw predicted durations rounded to a nearest whole number
  (at most one half away from the raw value); nothing clamps them, so a raw prediction
  below minus one half gives a negative duration.
\<close>

theorem inference_durations_rounded:
  "length (inference_durations raw) = length raw
   \<and> (\<forall>b < length raw. length (inference_durations raw ! b) = length (raw ! b)
        \<and> (\<forall>i < length (raw ! b).
              inference_durations raw ! b ! i = torch_round (raw ! b ! i)
              \<and> \<bar>of_int (inference_durations raw ! b ! i) - raw ! b ! i\<bar> \<le> 1 / 2
              \<and> (raw ! b ! i < - 1 / 2 \<longrightarrow> inference_durations raw ! b ! i < 0)))"
proof -
  have neg: "torch_round x < 0" if "x < - 1 / 2" for x
  proof -
    have "\<bar>of_int (torch_round x) - x\<bar> \<le> 1 / 2" by (rule torch_round_near)
    with that have "of_int (torch_round x) < (0::real)" by linarith
    then show ?thesis by simp
  qed
  show ?thesis
    using torch_round_near neg by (simp add: inference_durations_def)
qed

theorem inference_durations_rounded_witness:
  "0 < length [[5 / 2, - 8 / 5 :: real]] \<and> 1 < length ([[5 / 2, - 8 / 5 :: real]] ! 0)
   \<and> inference_durations [[5 / 2, - 8 / 5]] ! 0 ! 1 = torch_round (- 8 / 5)
   \<and> inference_durations [[5 / 2, - 8 / 5]] ! 0 ! 1 < 0
   \<and> inference_durations [[5 / 2, - 8 / 5]] = [[2, - 2]]"
  using inference_durations_rounded [of "[[5 / 2, - 8 / 5]]"]
  by (simp add: inference_durations_def torch_round_def Let_def)

section \<open>Hard alignments: lemmas\<close>

lemma length_path_matrix: "length (path_matrix Tx Ty path) = Tx"
  by (simp add: path_matrix_def)

lemma length_path_matrix_row: "i < Tx \<Longrightarrow> length (path_matrix Tx Ty path ! i) = Ty"
  by (simp add: path_matrix_def)

lemma path_matrix_nth:
  "i < Tx \<Longrightarrow> j < Ty \<Longrightarrow>
     path_matrix Tx Ty path ! i ! j = (if j < length path \<and> path ! j = i then 1 else 0)"
  by (simp add: path_matrix_def)

lemma path_matrix_hard_alignment:
  assumes srt: "sorted path" and bound: "\<forall>p \<in> set path. p < tx"
    and tx: "tx \<le> Tx" and len: "length path \<le> Ty"
  shows "hard_alignment (path_matrix Tx Ty path) Tx Ty tx (length path)"
proof -
  let ?M = "path_matrix Tx Ty path"
  have nth: "?M ! i ! j = (if j < length path \<and> path ! j = i then 1 else 0)"
    if "i < Tx" "j < Ty" for i j
    using that by (rule path_matrix_nth)
  have in_tx: "path ! j < tx" if "j < length path" for j
    using that bound by simp
  have binary: "\<forall>i < Tx. \<forall>j < Ty. ?M ! i ! j = 1 \<or> ?M ! i ! j = 0"
    by (simp add: nth)
  have region: "\<forall>i < Tx. \<forall>j < Ty. ?M ! i ! j = 1 \<longrightarrow> i < tx \<and> j < length path"
    using in_tx by (auto simp: nth split: if_splits)
  have one_hot: "\<exists>!i. i < Tx \<and> ?M ! i ! j = 1" if j: "j < length path" for j
  proof (rule ex1I [of _ "path ! j"])
    have "path ! j < Tx" using in_tx [OF j] tx by simp
    moreover have "j < Ty" using j len by simp
    ultimately show "path ! j < Tx \<and> ?M ! (path ! j) ! j = 1" using j by (simp add: nth)
  next
    fix i assume "i < Tx \<and> ?M ! i ! j = 1"
    moreover have "j < Ty" using j len by simp
    ultimately show "i = path ! j" by (auto simp: nth split: if_splits)
  qed
  have mono: "i \<le> i'"
    if "j \<le> j'" "j' < length path" "i < Tx" "i' < Tx" "?M ! i ! j = 1" "?M ! i' ! j' = 1"
    for j j' i i'
  proof -
    have jT: "j < Ty" "j' < Ty" using that(1,2) len by simp_all
    have "path ! j = i" using that(3,5) jT(1) by (auto simp: nth split: if_splits)
    moreover have "path ! j' = i'" using that(4,6) jT(2) by (auto simp: nth split: if_splits)
    moreover have "path ! j \<le> path ! j'" using srt that(1,2) by (rule sorted_nth_mono)
    ultimately show ?thesis by simp
  qed
  show ?thesis
    unfolding hard_alignment_def
  proof (intro conjI)
    show "length ?M = Tx" by (rule length_path_matrix)
    show "\<forall>i < Tx. length (?M ! i) = Ty" by (simp add: length_path_matrix_row)
    show "tx \<le> Tx" by (rule tx)
    show "length path \<le> Ty" by (rule len)
    show "\<forall>i < Tx. \<forall>j < Ty. ?M ! i ! j = 1 \<or> ?M ! i ! j = 0" by (rule binary)
    show "\<forall>i < Tx. \<forall>j < Ty. ?M ! i ! j = 1 \<longrightarrow> i < tx \<and> j < length path" by (rule region)
    show "\<forall>j < length path. \<exists>!i. i < Tx \<and> ?M ! i ! j = 1" using one_hot by blast
    show "\<forall>j j' i i'. j \<le> j' \<and> j' < length path \<and> i < Tx \<and> i' < Tx
            \<and> ?M ! i ! j = 1 \<and> ?M ! i' ! j' = 1 \<longrightarrow> i \<le> i'"
      using mono by blast
  qed
qed

section \<open>Monotonic alignment search: lemmas\<close>

lemma length_backtrack: "length (backtrack P msk i j) = Suc j"
  by (induction j arbitrary: i) simp_all

lemma predecessor_le: "predecessor P msk i j \<le> i"
  by (simp add: predecessor_def)

lemma backtrack_le: "p \<in> set (backtrack P msk i j) \<Longrightarrow> p \<le> i"
proof (induction j arbitrary: i)
  case 0
  then show ?case by simp
next
  case (Suc j)
  from Suc.prems have "p \<in> set (backtrack P msk (predecessor P msk i j) j) \<or> p = i" by auto
  then show ?case
  proof
    assume "p \<in> set (backtrack P msk (predecessor P msk i j) j)"
    then have "p \<le> predecessor P msk i j" by (rule Suc.IH)
    also have "\<dots> \<le> i" by (rule predecessor_le)
    finally show ?thesis .
  qed simp
qed

lemma sorted_backtrack: "sorted (backtrack P msk i j)"
proof (induction j arbitrary: i)
  case 0
  show ?case by simp
next
  case (Suc j)
  have "x \<le> i" if "x \<in> set (backtrack P msk (predecessor P msk i j) j)" for x
    using backtrack_le [OF that] predecessor_le [of P msk i j] by linarith
  then show ?case using Suc.IH by (simp add: sorted_append)
qed

lemma maximum_path1_hard:
  assumes shape: "length msk = Tx" "dim_frames msk = Ty"
    and frames: "valid_frames msk = ty" "ty \<le> Ty"
    and phonemes: "valid_phonemes msk \<le> tx" "tx \<le> Tx"
    and nonempty: "0 < ty \<Longrightarrow> 0 < valid_phonemes msk"
  shows "\<exists>path. maximum_path1 P msk = path_matrix Tx Ty path \<and> sorted path
            \<and> length path = ty \<and> (\<forall>p \<in> set path. p < tx)"
proof (cases "ty = 0")
  case True
  then have "maximum_path1 P msk = path_matrix Tx Ty []"
    using shape frames by (simp add: maximum_path1_def)
  then show ?thesis using True by (intro exI [of _ "[]"]) simp
next
  case False
  let ?path = "backtrack P msk (valid_phonemes msk - 1) (ty - 1)"
  have pos: "0 < valid_phonemes msk" using False nonempty by simp
  have eq: "maximum_path1 P msk = path_matrix Tx Ty ?path"
    using shape frames False pos by (simp add: maximum_path1_def)
  have len: "length ?path = ty" using False by (simp add: length_backtrack)
  have bound: "\<forall>p \<in> set ?path. p < tx"
  proof
    fix p assume "p \<in> set ?path"
    then have "p \<le> valid_phonemes msk - 1" by (rule backtrack_le)
    then show "p < tx" using pos phonemes by linarith
  qed
  show ?thesis using eq len bound sorted_backtrack by blast
qed


section \<open>Masks: lemmas\<close>

lemma fold_max_ge_init: "(a::int) \<le> fold max xs a"
proof (induction xs arbitrary: a)
  case Nil
  show ?case by simp
next
  case (Cons x xs)
  have "a \<le> max x a" by simp
  also have "\<dots> \<le> fold max xs (max x a)" by (rule Cons.IH)
  finally show ?case by simp
qed

lemma fold_max_ge: "x \<in> set xs \<Longrightarrow> (x::int) \<le> fold max xs a"
proof (induction xs arbitrary: a)
  case Nil
  then show ?case by simp
next
  case (Cons y ys)
  show ?case
  proof (cases "x = y")
    case True
    have "x \<le> max y a" using True by simp
    also have "\<dots> \<le> fold max ys (max y a)" by (rule fold_max_ge_init)
    finally show ?thesis by simp
  next
    case False
    with Cons.prems have "x \<in> set ys" by simp
    then show ?thesis using Cons.IH by simp
  qed
qed

lemma sequence_mask_rows:
  assumes "\<forall>l \<in> set lens. 0 \<le> l"
  shows "\<exists>m. sequence_mask lens (Some (int n)) = Inr m \<and> to_dtype m = map (\<lambda>l. mask_row l n) lens"
    and "\<exists>m. sequence_mask lens None = Inr m
           \<and> to_dtype m = map (\<lambda>l. mask_row l (nat (fold max lens 0))) lens"
proof -
  have no_neg: "\<not> (\<exists>l \<in> set lens. l < 0)" using assms by (simp add: not_less)
  show "\<exists>m. sequence_mask lens (Some (int n)) = Inr m \<and> to_dtype m = map (\<lambda>l. mask_row l n) lens"
    using no_neg by (simp add: sequence_mask_def to_dtype_def mask_row_def comp_def)
  show "\<exists>m. sequence_mask lens None = Inr m
           \<and> to_dtype m = map (\<lambda>l. mask_row l (nat (fold max lens 0))) lens"
    using no_neg by (simp add: sequence_mask_def to_dtype_def mask_row_def comp_def)
qed

lemma length_mask_row: "length (mask_row l n) = n"
  by (simp add: mask_row_def)

lemma mask_row_nth: "t < n \<Longrightarrow> mask_row l n ! t = of_bool (int t < l)"
  by (simp add: mask_row_def)

lemma count_below: "length (filter (\<lambda>t. int t < l) [0..<n]) = min (nat l) n"
  by (induction n) auto

lemma mask_row_nonzero: "length (filter (\<lambda>m. m \<noteq> 0) (mask_row l n)) = min (nat l) n"
proof -
  have "filter (\<lambda>m. m \<noteq> 0) (mask_row l n)
          = map (\<lambda>t. of_bool (int t < l)) (filter (\<lambda>t. int t < l) [0..<n])"
    by (simp add: mask_row_def filter_map comp_def)
  then show ?thesis by (simp add: count_below)
qed

lemma length_outer_mask: "length (outer_mask xr yr) = length xr"
  by (simp add: outer_mask_def)

lemma outer_mask_nth:
  "i < length xr \<Longrightarrow> j < length yr \<Longrightarrow> outer_mask xr yr ! i ! j = xr ! i * yr ! j"
  by (simp add: outer_mask_def)

lemma length_outer_mask_row: "i < length xr \<Longrightarrow> length (outer_mask xr yr ! i) = length yr"
  by (simp add: outer_mask_def)

lemma dim_frames_outer_mask: "xr \<noteq> [] \<Longrightarrow> dim_frames (outer_mask xr yr) = length yr"
  by (cases xr) (simp_all add: dim_frames_def outer_mask_def)

lemma mask_row_Cons: "0 < n \<Longrightarrow> 1 \<le> l \<Longrightarrow> \<exists>rest. mask_row l n = 1 # rest"
  by (simp add: mask_row_def upt_conv_Cons)

lemma valid_frames_outer_mask:
  assumes "0 < Tx" "1 \<le> lx"
  shows "valid_frames (outer_mask (mask_row lx Tx) (mask_row ly Ty)) = min (nat ly) Ty"
proof -
  obtain rest where "mask_row lx Tx = 1 # rest"
    using mask_row_Cons [OF assms] by blast
  then have "valid_frames (outer_mask (mask_row lx Tx) (mask_row ly Ty))
               = length (filter (\<lambda>m. m \<noteq> 0) (mask_row ly Ty))"
    by (simp add: valid_frames_def outer_mask_def filter_map comp_def)
  then show ?thesis by (simp add: mask_row_nonzero)
qed

lemma valid_phonemes_outer_mask:
  "valid_phonemes (outer_mask xr yr)
     = (if yr \<noteq> [] \<and> hd yr \<noteq> 0 then length (filter (\<lambda>a. a \<noteq> 0) xr) else 0)"
proof -
  have "(\<lambda>a. map (\<lambda>b. a * b) yr \<noteq> [] \<and> hd (map (\<lambda>b. a * b) yr) \<noteq> 0)
          = (\<lambda>a. yr \<noteq> [] \<and> hd yr \<noteq> 0 \<and> a \<noteq> 0)"
    by (cases yr) auto
  then show ?thesis
    by (simp add: valid_phonemes_def outer_mask_def filter_map comp_def)
qed

lemma valid_phonemes_mask_rows_le:
  "valid_phonemes (outer_mask (mask_row lx Tx) (mask_row ly Ty)) \<le> nat lx"
  by (simp add: valid_phonemes_outer_mask mask_row_nonzero)

lemma valid_phonemes_mask_rows_pos:
  assumes "0 < Tx" "1 \<le> lx" "0 < min (nat ly) Ty"
  shows "0 < valid_phonemes (outer_mask (mask_row lx Tx) (mask_row ly Ty))"
proof -
  have "0 < Ty" "1 \<le> ly" using assms(3) by simp_all
  then obtain rest where "mask_row ly Ty = 1 # rest"
    using mask_row_Cons by blast
  then have "valid_phonemes (outer_mask (mask_row lx Tx) (mask_row ly Ty)) = min (nat lx) Tx"
    by (simp add: valid_phonemes_outer_mask mask_row_nonzero)
  then show ?thesis using assms(1,2) by simp
qed

lemma maximum_path1_mask_rows:
  assumes lx: "1 \<le> lx" "lx \<le> int Tx" and ly: "0 \<le> ly" "ly \<le> int Ty"
  shows "\<exists>path. maximum_path1 P (outer_mask (mask_row lx Tx) (mask_row ly Ty))
                  = path_matrix Tx Ty path
            \<and> sorted path \<and> length path = nat ly \<and> (\<forall>p \<in> set path. p < nat lx)"
proof -
  let ?msk = "outer_mask (mask_row lx Tx) (mask_row ly Ty)"
  have Tx: "0 < Tx" using lx by linarith
  have ne: "mask_row lx Tx \<noteq> []" using Tx by (simp add: mask_row_def)
  have ty: "min (nat ly) Ty = nat ly" using ly by linarith
  show ?thesis
  proof (rule maximum_path1_hard)
    show "length ?msk = Tx" by (simp add: length_outer_mask length_mask_row)
    show "dim_frames ?msk = Ty" using ne by (simp add: dim_frames_outer_mask length_mask_row)
    show "valid_frames ?msk = nat ly" using Tx lx(1) ty by (simp add: valid_frames_outer_mask)
    show "nat ly \<le> Ty" using ly by linarith
    show "valid_phonemes ?msk \<le> nat lx" by (rule valid_phonemes_mask_rows_le)
    show "nat lx \<le> Tx" using lx by linarith
    show "0 < valid_phonemes ?msk" if "0 < nat ly"
      using that Tx lx(1) ty by (intro valid_phonemes_mask_rows_pos) simp_all
  qed
qed


section \<open>Durations of a hard alignment: lemmas\<close>

lemma sum_list_indicator:
  "sum_list (map (\<lambda>j. if Q j then 1 else 0) xs) = int (length (filter Q xs))"
  by (induction xs) simp_all

lemma filter_upt_below:
  assumes "n \<le> m"
  shows "filter (\<lambda>j. j < n \<and> R j) [0..<m] = filter R [0..<n]"
proof -
  have "[0..<m] = [0..<n] @ [n..<m]"
    using assms by (metis le_add_diff_inverse upt_add_eq_append zero_le)
  moreover have "filter (\<lambda>j. j < n \<and> R j) [0..<n] = filter R [0..<n]"
    by (rule filter_cong) simp_all
  moreover have "filter (\<lambda>j. j < n \<and> R j) [n..<m] = []"
    by (simp add: filter_empty_conv)
  ultimately show ?thesis by simp
qed

lemma length_filter_nth:
  "length (filter (\<lambda>j. Q (xs ! j)) [0..<length xs]) = length (filter Q xs)"
proof -
  have "filter Q xs = filter Q (map (nth xs) [0..<length xs])" by (simp add: map_nth)
  also have "\<dots> = map (nth xs) (filter (\<lambda>j. Q (xs ! j)) [0..<length xs])"
    by (simp add: filter_map comp_def)
  finally show ?thesis by simp
qed

lemma path_matrix_row_sum:
  assumes "i < Tx" "length path \<le> Ty"
  shows "sum_list (path_matrix Tx Ty path ! i) = int (length (filter (\<lambda>p. p = i) path))"
proof -
  have "path_matrix Tx Ty path ! i
          = map (\<lambda>j. if j < length path \<and> path ! j = i then 1 else 0) [0..<Ty]"
    using assms(1) by (simp add: path_matrix_def)
  then have "sum_list (path_matrix Tx Ty path ! i)
          = int (length (filter (\<lambda>j. j < length path \<and> path ! j = i) [0..<Ty]))"
    by (simp only: sum_list_indicator)
  also have "filter (\<lambda>j. j < length path \<and> path ! j = i) [0..<Ty]
          = filter (\<lambda>j. path ! j = i) [0..<length path]"
    using assms(2) by (rule filter_upt_below)
  also have "length (filter (\<lambda>j. path ! j = i) [0..<length path])
          = length (filter (\<lambda>p. p = i) path)"
    by (rule length_filter_nth)
  finally show ?thesis .
qed

lemma path_matrix_durations:
  assumes "length path \<le> Ty"
  shows "map sum_list (path_matrix Tx Ty path)
           = map (\<lambda>i. int (length (filter (\<lambda>p. p = i) path))) [0..<Tx]"
proof (rule nth_equalityI)
  show "length (map sum_list (path_matrix Tx Ty path))
          = length (map (\<lambda>i. int (length (filter (\<lambda>p. p = i) path))) [0..<Tx])"
    by (simp add: length_path_matrix)
next
  fix i assume "i < length (map sum_list (path_matrix Tx Ty path))"
  then have i: "i < Tx" by (simp add: length_path_matrix)
  then show "map sum_list (path_matrix Tx Ty path) ! i
               = map (\<lambda>i. int (length (filter (\<lambda>p. p = i) path))) [0..<Tx] ! i"
    using assms by (simp add: length_path_matrix path_matrix_row_sum)
qed

lemma count_lt_Suc:
  "length (filter (\<lambda>p. p < Suc n) xs)
     = length (filter (\<lambda>p. p < n) xs) + length (filter (\<lambda>p. p = n) xs)"
  by (induction xs) auto

lemma sum_counts:
  "sum_list (map (\<lambda>i. int (length (filter (\<lambda>p. p = i) xs))) [0..<n])
     = int (length (filter (\<lambda>p. p < n) xs))"
  by (induction n) (simp_all add: count_lt_Suc)

lemma cum_durations:
  assumes "length path \<le> Ty" "n \<le> Tx"
  shows "sum_list (take n (map sum_list (path_matrix Tx Ty path)))
           = int (length (filter (\<lambda>p. p < n) path))"
proof -
  have "take n (map sum_list (path_matrix Tx Ty path))
          = map (\<lambda>i. int (length (filter (\<lambda>p. p = i) path))) [0..<n]"
    using assms by (simp add: path_matrix_durations take_map)
  then show ?thesis by (simp only: sum_counts)
qed

lemma sorted_count_below:
  "sorted xs \<Longrightarrow> j < length (filter (\<lambda>p. p < i) xs) \<longleftrightarrow> j < length xs \<and> xs ! j < (i::nat)"
proof (induction xs arbitrary: j)
  case Nil
  show ?case by simp
next
  case (Cons x xs)
  show ?case
  proof (cases "x < i")
    case True
    then show ?thesis using Cons by (cases j) simp_all
  next
    case False
    have "\<not> y < i" if "y \<in> set xs" for y
      using that Cons.prems False by fastforce
    then have empty: "filter (\<lambda>p. p < i) xs = []" by (simp add: filter_empty_conv)
    have "\<not> (x # xs) ! j < i" if "j < length (x # xs)"
    proof -
      have "(x # xs) ! 0 \<le> (x # xs) ! j"
        using Cons.prems that by (intro sorted_nth_mono) simp_all
      then show ?thesis using False by simp
    qed
    then show ?thesis using False empty by auto
  qed
qed


section \<open>Expansion map from durations: lemmas\<close>

lemma generate_path1_nth:
  "i < length msk \<Longrightarrow> j < length (msk ! i) \<Longrightarrow>
     generate_path1 dr msk ! i ! j
       = (if sum_list (take i dr) \<le> int j \<and> int j < sum_list (take (Suc i) dr) then 1 else 0)
           * msk ! i ! j"
  by (simp add: generate_path1_def)

lemma generate_path1_path_matrix:
  assumes srt: "sorted path" and len: "length path \<le> Ty"
    and shape: "length msk = Tx" "\<forall>i < Tx. length (msk ! i) = Ty"
    and valid: "\<forall>j < length path. path ! j < Tx \<and> msk ! (path ! j) ! j = 1"
  shows "generate_path1 (map sum_list (path_matrix Tx Ty path)) msk = path_matrix Tx Ty path"
proof -
  let ?dr = "map sum_list (path_matrix Tx Ty path)"
  have cum: "sum_list (take n ?dr) = int (length (filter (\<lambda>p. p < n) path))" if "n \<le> Tx" for n
    using len that by (rule cum_durations)
  have entry: "generate_path1 ?dr msk ! i ! j = path_matrix Tx Ty path ! i ! j"
    if i: "i < Tx" and j: "j < Ty" for i j
  proof -
    have ci: "sum_list (take i ?dr) = int (length (filter (\<lambda>p. p < i) path))"
      using cum [of i] i by simp
    have cs: "sum_list (take (Suc i) ?dr) = int (length (filter (\<lambda>p. p < Suc i) path))"
      using cum [of "Suc i"] i by simp
    have "sum_list (take i ?dr) \<le> int j \<longleftrightarrow> \<not> j < length (filter (\<lambda>p. p < i) path)"
      unfolding ci by linarith
    then have lo: "sum_list (take i ?dr) \<le> int j \<longleftrightarrow> \<not> (j < length path \<and> path ! j < i)"
      by (simp only: sorted_count_below [OF srt])
    have "int j < sum_list (take (Suc i) ?dr) \<longleftrightarrow> j < length (filter (\<lambda>p. p < Suc i) path)"
      unfolding cs by linarith
    then have hi: "int j < sum_list (take (Suc i) ?dr) \<longleftrightarrow> j < length path \<and> path ! j < Suc i"
      by (simp only: sorted_count_below [OF srt])
    have cond: "sum_list (take i ?dr) \<le> int j \<and> int j < sum_list (take (Suc i) ?dr)
                  \<longleftrightarrow> j < length path \<and> path ! j = i"
      unfolding lo hi by auto
    have "generate_path1 ?dr msk ! i ! j
            = (if j < length path \<and> path ! j = i then 1 else 0) * msk ! i ! j"
      using i j shape cond by (simp add: generate_path1_nth)
    also have "\<dots> = (if j < length path \<and> path ! j = i then 1 else 0)"
      using valid by auto
    finally show ?thesis using i j by (simp add: path_matrix_nth)
  qed
  show ?thesis
  proof (rule nth_equalityI)
    show "length (generate_path1 ?dr msk) = length (path_matrix Tx Ty path)"
      using shape by (simp add: generate_path1_def length_path_matrix)
  next
    fix i assume "i < length (generate_path1 ?dr msk)"
    then have i: "i < Tx" using shape by (simp add: generate_path1_def)
    show "generate_path1 ?dr msk ! i = path_matrix Tx Ty path ! i"
    proof (rule nth_equalityI)
      show "length (generate_path1 ?dr msk ! i) = length (path_matrix Tx Ty path ! i)"
        using i shape by (simp add: generate_path1_def length_path_matrix_row)
    next
      fix j assume "j < length (generate_path1 ?dr msk ! i)"
      then have "j < Ty" using i shape by (simp add: generate_path1_def)
      with i show "generate_path1 ?dr msk ! i ! j = path_matrix Tx Ty path ! i ! j"
        by (rule entry)
    qed
  qed
qed

lemma hard_alignment_path:
  assumes "hard_alignment H Tx Ty tx ty"
  shows "\<exists>path. H = path_matrix Tx Ty path \<and> sorted path \<and> length path = ty
            \<and> (\<forall>p \<in> set path. p < tx)"
proof -
  define a where "a j = (THE i. i < Tx \<and> H ! i ! j = 1)" for j
  define path where "path = map a [0..<ty]"
  have shape: "length H = Tx" "\<forall>i < Tx. length (H ! i) = Ty" "tx \<le> Tx" "ty \<le> Ty"
    using assms by (simp_all add: hard_alignment_def)
  have binary: "H ! i ! j = 1 \<or> H ! i ! j = 0" if "i < Tx" "j < Ty" for i j
    using assms that by (simp add: hard_alignment_def)
  have region: "i < tx \<and> j < ty" if "i < Tx" "j < Ty" "H ! i ! j = 1" for i j
    using assms that by (simp add: hard_alignment_def)
  have one_hot: "\<exists>!i. i < Tx \<and> H ! i ! j = 1" if "j < ty" for j
    using assms that by (simp add: hard_alignment_def)
  have mono: "i \<le> i'"
    if "j \<le> j'" "j' < ty" "i < Tx" "i' < Tx" "H ! i ! j = 1" "H ! i' ! j' = 1" for i i' j j'
    using assms that unfolding hard_alignment_def by blast
  have a_ok: "a j < Tx \<and> H ! (a j) ! j = 1" if "j < ty" for j
    unfolding a_def using one_hot [OF that] by (rule theI')
  have a_unique: "i = a j" if "j < ty" "i < Tx" "H ! i ! j = 1" for i j
    using one_hot [OF that(1)] a_ok [OF that(1)] that(2,3) by blast
  have len: "length path = ty" by (simp add: path_def)
  have nth: "path ! j = a j" if "j < ty" for j using that by (simp add: path_def)
  have bound: "\<forall>p \<in> set path. p < tx"
  proof
    fix p assume "p \<in> set path"
    then obtain j where j: "j < ty" and p: "p = a j" by (auto simp: path_def)
    have "j < Ty" using j shape(4) by simp
    then show "p < tx" using region [of "a j" j] a_ok [OF j] p by simp
  qed
  have srt: "sorted path"
  proof (rule sorted_iff_nth_mono [THEN iffD2], intro allI impI)
    fix j j' assume "j \<le> j'" "j' < length path"
    then have jj: "j \<le> j'" "j' < ty" "j < ty" using len by simp_all
    have "a j \<le> a j'"
      using mono [OF jj(1,2)] a_ok [OF jj(3)] a_ok [OF jj(2)] by blast
    then show "path ! j \<le> path ! j'" using jj by (simp add: nth)
  qed
  have entry: "H ! i ! j = path_matrix Tx Ty path ! i ! j" if i: "i < Tx" and j: "j < Ty" for i j
  proof (cases "j < ty \<and> a j = i")
    case True
    then show ?thesis using i j a_ok [of j] by (simp add: path_matrix_nth len nth)
  next
    case False
    have "H ! i ! j \<noteq> 1"
    proof
      assume one: "H ! i ! j = 1"
      then have "j < ty" using region [OF i j] by simp
      moreover from this have "i = a j" using i one by (rule a_unique)
      ultimately show False using False by simp
    qed
    then have "H ! i ! j = 0" using binary [OF i j] by simp
    moreover have "path_matrix Tx Ty path ! i ! j = 0"
      using False i j by (auto simp: path_matrix_nth len nth)
    ultimately show ?thesis by simp
  qed
  have "H = path_matrix Tx Ty path"
  proof (rule nth_equalityI)
    show "length H = length (path_matrix Tx Ty path)"
      using shape(1) by (simp add: length_path_matrix)
  next
    fix i assume "i < length H"
    then have i: "i < Tx" using shape(1) by simp
    show "H ! i = path_matrix Tx Ty path ! i"
    proof (rule nth_equalityI)
      show "length (H ! i) = length (path_matrix Tx Ty path ! i)"
        using i shape(2) by (simp add: length_path_matrix_row)
    next
      fix j assume "j < length (H ! i)"
      then have "j < Ty" using i shape(2) by simp
      with i show "H ! i ! j = path_matrix Tx Ty path ! i ! j" by (rule entry)
    qed
  qed
  then show ?thesis using srt len bound by blast
qed

section \<open>Alignment in the training pass: properties\<close>

lemma length_attn_mask: "length (attn_mask X Y) = min (length X) (length Y)"
  by (simp add: attn_mask_def)

lemma attn_mask_nth:
  "b < length X \<Longrightarrow> b < length Y \<Longrightarrow> attn_mask X Y ! b = outer_mask (X ! b) (Y ! b)"
  by (simp add: attn_mask_def)

lemma length_maximum_path: "length (maximum_path value msk) = min (length value) (length msk)"
  by (simp add: maximum_path_def)

lemma maximum_path_nth:
  "b < length value \<Longrightarrow> b < length msk \<Longrightarrow>
     maximum_path value msk ! b = maximum_path1 (value ! b) (msk ! b)"
  by (simp add: maximum_path_def)

lemma length_generate_path: "length (generate_path dr msk) = min (length dr) (length msk)"
  by (simp add: generate_path_def)

lemma generate_path_nth:
  "b < length dr \<Longrightarrow> b < length msk \<Longrightarrow>
     generate_path dr msk ! b = generate_path1 (dr ! b) (msk ! b)"
  by (simp add: generate_path_def)

lemma forward_alignment_result:
  assumes "\<forall>l \<in> set tokens_lens. 0 \<le> l" and "\<forall>l \<in> set mel_lens. 0 \<le> l"
    and "NaN \<notin> set (concat (concat alignment_soft))"
  shows "forward_alignment tokens_lens T_en mel_lens alignment_soft
           = Inr (map (map sum_list)
                    (maximum_path (map transpose alignment_soft)
                       (attn_mask (map (\<lambda>l. mask_row l T_en) tokens_lens)
                          (map (\<lambda>l. mask_row l (nat (fold max mel_lens 0))) mel_lens))),
                  maximum_path (map transpose alignment_soft)
                    (attn_mask (map (\<lambda>l. mask_row l T_en) tokens_lens)
                       (map (\<lambda>l. mask_row l (nat (fold max mel_lens 0))) mel_lens)))"
proof -
  obtain tm where tm: "sequence_mask tokens_lens (Some (int T_en)) = Inr tm"
      "to_dtype tm = map (\<lambda>l. mask_row l T_en) tokens_lens"
    using sequence_mask_rows(1) [OF assms(1)] by blast
  obtain mm where mm: "sequence_mask mel_lens None = Inr mm"
      "to_dtype mm = map (\<lambda>l. mask_row l (nat (fold max mel_lens 0))) mel_lens"
    using sequence_mask_rows(2) [OF assms(2)] by blast
  show ?thesis
    using assms(3) by (simp add: forward_alignment_def tm mm forward_aligner_def Let_def)
qed

lemma forward_alignment_path:
  assumes lens: "length tokens_lens = B" "length mel_lens = B" "length alignment_soft = B"
    and nonneg: "\<forall>l \<in> set tokens_lens. 0 \<le> l" "\<forall>l \<in> set mel_lens. 0 \<le> l"
    and nan: "NaN \<notin> set (concat (concat alignment_soft))"
    and b: "b < B" and lx: "1 \<le> tokens_lens ! b" "tokens_lens ! b \<le> int T_en"
  shows "\<exists>hard mas path.
           forward_alignment tokens_lens T_en mel_lens alignment_soft = Inr (hard, mas)
           \<and> length hard = B \<and> length mas = B \<and> hard ! b = map sum_list (mas ! b)
           \<and> mas ! b = path_matrix T_en (nat (fold max mel_lens 0)) path
           \<and> sorted path \<and> length path = nat (mel_lens ! b)
           \<and> (\<forall>p \<in> set path. p < nat (tokens_lens ! b))"
proof -
  let ?Ty = "nat (fold max mel_lens 0)"
  let ?X = "map (\<lambda>l. mask_row l T_en) tokens_lens"
  let ?Y = "map (\<lambda>l. mask_row l ?Ty) mel_lens"
  let ?mas = "maximum_path (map transpose alignment_soft) (attn_mask ?X ?Y)"
  have res: "forward_alignment tokens_lens T_en mel_lens alignment_soft
               = Inr (map (map sum_list) ?mas, ?mas)"
    using nonneg nan by (rule forward_alignment_result)
  have len: "length ?mas = B"
    using lens by (simp add: length_maximum_path length_attn_mask)
  have nth: "?mas ! b = maximum_path1 (transpose (alignment_soft ! b))
                          (outer_mask (mask_row (tokens_lens ! b) T_en) (mask_row (mel_lens ! b) ?Ty))"
    using lens b by (simp add: maximum_path_nth length_attn_mask attn_mask_nth)
  have mem: "mel_lens ! b \<in> set mel_lens" using lens b by simp
  have ly: "0 \<le> mel_lens ! b" using nonneg(2) mem by blast
  have "mel_lens ! b \<le> fold max mel_lens 0" using mem by (rule fold_max_ge)
  then have ly': "mel_lens ! b \<le> int ?Ty" by simp
  obtain path where path: "?mas ! b = path_matrix T_en ?Ty path" "sorted path"
      "length path = nat (mel_lens ! b)" "\<forall>p \<in> set path. p < nat (tokens_lens ! b)"
    unfolding nth using maximum_path1_mask_rows [OF lx ly ly'] by blast
  have hard: "map (map sum_list) ?mas ! b = map sum_list (?mas ! b)"
    using len b by simp
  show ?thesis
    using res len hard path by (intro exI [of _ "map (map sum_list) ?mas"] exI [of _ ?mas] exI [of _ path]) simp
qed


text \<open>
  C1. For every soft alignment without NaN and masks built from the lengths, the hard
  alignment \<open>alignment_mas\<close> of an utterance with at least one phoneme assigns exactly
  one phoneme to every valid frame, and the assigned phoneme index does not decrease as
  the frame index increases.
\<close>

theorem mas_one_phoneme_per_frame_monotonic:
  assumes lens: "length tokens_lens = B" "length mel_lens = B" "length alignment_soft = B"
    and shape: "\<forall>m \<in> set alignment_soft.
                  length m = nat (fold max mel_lens 0) \<and> (\<forall>r \<in> set m. length r = T_en)"
    and nonneg: "\<forall>l \<in> set tokens_lens. 0 \<le> l" "\<forall>l \<in> set mel_lens. 0 \<le> l"
    and nan: "NaN \<notin> set (concat (concat alignment_soft))"
    and b: "b < B" and lx: "1 \<le> tokens_lens ! b" "tokens_lens ! b \<le> int T_en"
  shows "\<exists>hard mas.
           forward_alignment tokens_lens T_en mel_lens alignment_soft = Inr (hard, mas)
           \<and> (\<forall>j < nat (mel_lens ! b). \<exists>!i. i < T_en \<and> mas ! b ! i ! j = 1)
           \<and> (\<forall>j j' i i'. j \<le> j' \<and> j' < nat (mel_lens ! b) \<and> i < T_en \<and> i' < T_en
                  \<and> mas ! b ! i ! j = 1 \<and> mas ! b ! i' ! j' = 1 \<longrightarrow> i \<le> i')
           \<and> hard_alignment (mas ! b) T_en (nat (fold max mel_lens 0))
                (nat (tokens_lens ! b)) (nat (mel_lens ! b))"
proof -
  let ?Ty = "nat (fold max mel_lens 0)"
  obtain hard mas path where res:
      "forward_alignment tokens_lens T_en mel_lens alignment_soft = Inr (hard, mas)"
      "mas ! b = path_matrix T_en ?Ty path" "sorted path"
      "length path = nat (mel_lens ! b)" "\<forall>p \<in> set path. p < nat (tokens_lens ! b)"
    using forward_alignment_path [OF lens nonneg nan b lx] by blast
  have mem: "mel_lens ! b \<in> set mel_lens" using lens b by simp
  have "mel_lens ! b \<le> fold max mel_lens 0" using mem by (rule fold_max_ge)
  then have len: "length path \<le> ?Ty" using res(4) by simp
  have tx: "nat (tokens_lens ! b) \<le> T_en" using lx by linarith
  have ha: "hard_alignment (mas ! b) T_en ?Ty (nat (tokens_lens ! b)) (nat (mel_lens ! b))"
    using path_matrix_hard_alignment [OF res(3) res(5) tx len] res(2,4) by simp
  have one_hot: "\<forall>j < nat (mel_lens ! b). \<exists>!i. i < T_en \<and> mas ! b ! i ! j = 1"
    using ha unfolding hard_alignment_def by blast
  have mono: "\<forall>j j' i i'. j \<le> j' \<and> j' < nat (mel_lens ! b) \<and> i < T_en \<and> i' < T_en
                \<and> mas ! b ! i ! j = 1 \<and> mas ! b ! i' ! j' = 1 \<longrightarrow> i \<le> i'"
    using ha unfolding hard_alignment_def by blast
  show ?thesis using res(1) one_hot mono ha by blast
qed

lemma path_matrix_example: "path_matrix 2 3 [0, 0, 1] = [[1, 1, 0], [0, 0, 1]]"
  by (simp add: path_matrix_def upt_conv_Cons)

lemma forward_alignment_example:
  "forward_alignment [2] 2 [3] [[[Num 1, Num 0], [Num 1, Num 0], [Num 0, Num 1]]]
     = Inr ([[2, 1]], [[[1, 1, 0], [0, 0, 1]]])"
  by (simp add: forward_alignment_def sequence_mask_def to_dtype_def forward_aligner_def
      attn_mask_def outer_mask_def maximum_path_def maximum_path1_def valid_phonemes_def
      valid_frames_def dim_frames_def path_matrix_def mask_at_def score_max_def
      predecessor_def Let_def upt_conv_Cons)

theorem mas_one_phoneme_per_frame_monotonic_witness:
  "length [2 :: int] = 1 \<and> length [3 :: int] = 1
   \<and> NaN \<notin> set (concat (concat [[[Num 1, Num 0], [Num 1, Num 0], [Num 0, Num 1]]]))
   \<and> (0::nat) < 1 \<and> 1 \<le> [2 :: int] ! 0 \<and> [2 :: int] ! 0 \<le> int 2
   \<and> forward_alignment [2] 2 [3] [[[Num 1, Num 0], [Num 1, Num 0], [Num 0, Num 1]]]
        = Inr ([[2, 1]], [[[1, 1, 0], [0, 0, 1]]])
   \<and> hard_alignment ([[[1, 1, 0], [0, 0, 1]]] ! 0) 2 (nat (fold max [3] 0))
        (nat ([2] ! 0)) (nat ([3] ! 0))"
proof -
  have "\<exists>hard mas.
           forward_alignment [2] 2 [3] [[[Num 1, Num 0], [Num 1, Num 0], [Num 0, Num 1]]]
             = Inr (hard, mas)
           \<and> (\<forall>j < nat ([3] ! 0). \<exists>!i. i < 2 \<and> mas ! 0 ! i ! j = 1)
           \<and> (\<forall>j j' i i'. j \<le> j' \<and> j' < nat ([3] ! 0) \<and> i < 2 \<and> i' < 2
                  \<and> mas ! 0 ! i ! j = 1 \<and> mas ! 0 ! i' ! j' = 1 \<longrightarrow> i \<le> i')
           \<and> hard_alignment (mas ! 0) 2 (nat (fold max [3] 0)) (nat ([2] ! 0)) (nat ([3] ! 0))"
    by (rule mas_one_phoneme_per_frame_monotonic [where B = 1]) simp_all
  then show ?thesis by (auto simp: forward_alignment_example)
qed

text \<open>
  C2. For every hard alignment that the aligner produces for an utterance, the
  per-phoneme durations, the row sums of the hard alignment, are non-negative whole
  numbers, and their sum over the valid phonemes is the utterance's valid frame length.
\<close>

theorem durations_sum_to_frame_length:
  assumes lens: "length tokens_lens = B" "length mel_lens = B" "length alignment_soft = B"
    and shape: "\<forall>m \<in> set alignment_soft.
                  length m = nat (fold max mel_lens 0) \<and> (\<forall>r \<in> set m. length r = T_en)"
    and nonneg: "\<forall>l \<in> set tokens_lens. 0 \<le> l" "\<forall>l \<in> set mel_lens. 0 \<le> l"
    and nan: "NaN \<notin> set (concat (concat alignment_soft))"
    and b: "b < B" and lx: "1 \<le> tokens_lens ! b" "tokens_lens ! b \<le> int T_en"
  shows "\<exists>hard mas.
           forward_alignment tokens_lens T_en mel_lens alignment_soft = Inr (hard, mas)
           \<and> hard ! b = map sum_list (mas ! b)
           \<and> length (hard ! b) = T_en
           \<and> (\<forall>d \<in> set (hard ! b). 0 \<le> d)
           \<and> sum_list (take (nat (tokens_lens ! b)) (hard ! b)) = mel_lens ! b
           \<and> sum_list (hard ! b) = mel_lens ! b"
proof -
  let ?Ty = "nat (fold max mel_lens 0)"
  let ?tx = "nat (tokens_lens ! b)"
  obtain hard mas path where res:
      "forward_alignment tokens_lens T_en mel_lens alignment_soft = Inr (hard, mas)"
      "hard ! b = map sum_list (mas ! b)"
      "mas ! b = path_matrix T_en ?Ty path" "sorted path"
      "length path = nat (mel_lens ! b)" "\<forall>p \<in> set path. p < ?tx"
    using forward_alignment_path [OF lens nonneg nan b lx] by blast
  have mem: "mel_lens ! b \<in> set mel_lens" using lens b by simp
  have ly: "0 \<le> mel_lens ! b" using nonneg(2) mem by blast
  have "mel_lens ! b \<le> fold max mel_lens 0" using mem by (rule fold_max_ge)
  then have len: "length path \<le> ?Ty" using res(5) by simp
  have tx: "?tx \<le> T_en" using lx by linarith
  have dur: "hard ! b = map (\<lambda>i. int (length (filter (\<lambda>p. p = i) path))) [0..<T_en]"
    using res(2,3) len by (simp add: path_matrix_durations)
  have length_hard: "length (hard ! b) = T_en" by (simp add: dur)
  have pos: "\<forall>d \<in> set (hard ! b). 0 \<le> d" by (auto simp: dur)
  have all_valid: "filter (\<lambda>p. p < ?tx) path = path"
    using res(6) by (simp add: filter_id_conv)
  have all_padded: "filter (\<lambda>p. p < T_en) path = path"
    using res(6) tx by (auto simp: filter_id_conv)
  have "sum_list (take ?tx (hard ! b)) = int (length (filter (\<lambda>p. p < ?tx) path))"
    unfolding res(2,3) using len tx by (rule cum_durations)
  then have valid_sum: "sum_list (take ?tx (hard ! b)) = mel_lens ! b"
    using all_valid res(5) ly by simp
  have "sum_list (take T_en (hard ! b)) = int (length (filter (\<lambda>p. p < T_en) path))"
    unfolding res(2,3) using len by (intro cum_durations) simp_all
  then have total_sum: "sum_list (hard ! b) = mel_lens ! b"
    using all_padded res(5) ly length_hard by simp
  show ?thesis using res(1,2) length_hard pos valid_sum total_sum by blast
qed

theorem durations_sum_to_frame_length_witness:
  "length [2 :: int] = 1 \<and> length [3 :: int] = 1
   \<and> NaN \<notin> set (concat (concat [[[Num 1, Num 0], [Num 1, Num 0], [Num 0, Num 1]]]))
   \<and> (0::nat) < 1 \<and> 1 \<le> [2 :: int] ! 0 \<and> [2 :: int] ! 0 \<le> int 2
   \<and> forward_alignment [2] 2 [3] [[[Num 1, Num 0], [Num 1, Num 0], [Num 0, Num 1]]]
        = Inr ([[2, 1]], [[[1, 1, 0], [0, 0, 1]]])
   \<and> sum_list (take (nat ([2] ! 0)) ([[2, 1 :: int]] ! 0)) = [3] ! 0"
proof -
  have "\<exists>hard mas.
           forward_alignment [2] 2 [3] [[[Num 1, Num 0], [Num 1, Num 0], [Num 0, Num 1]]]
             = Inr (hard, mas)
           \<and> hard ! 0 = map sum_list (mas ! 0)
           \<and> length (hard ! 0) = 2
           \<and> (\<forall>d \<in> set (hard ! 0). 0 \<le> d)
           \<and> sum_list (take (nat ([2] ! 0)) (hard ! 0)) = [3] ! 0
           \<and> sum_list (hard ! 0) = [3] ! 0"
    by (rule durations_sum_to_frame_length [where B = 1]) simp_all
  then show ?thesis by (auto simp: forward_alignment_example)
qed

text \<open>
  C8. The soft alignment is checked for NaN before the alignment search: the aligner
  fails with the assertion exactly when the soft alignment contains a NaN entry, and in
  that case returns no alignment at all.
\<close>

theorem nan_soft_alignment_fails:
  "forward_aligner alignment_soft x_mask y_mask = Inl AssertionError
     \<longleftrightarrow> NaN \<in> set (concat (concat alignment_soft))"
  by (simp add: forward_aligner_def Let_def)

theorem nan_soft_alignment_fails_witness:
  "NaN \<in> set (concat (concat [[[Num 1, NaN]]]))
   \<and> forward_aligner [[[Num 1, NaN]]] [[1, 1]] [[1]] = Inl AssertionError"
  using nan_soft_alignment_fails [of "[[[Num 1, NaN]]]" "[[1, 1]]" "[[1]]"] by simp

section \<open>Expansion map from durations: properties\<close>

lemma length_generate_path1: "length (generate_path1 dr msk) = length msk"
  by (simp add: generate_path1_def)

lemma length_generate_path1_row:
  "i < length msk \<Longrightarrow> length (generate_path1 dr msk ! i) = length (msk ! i)"
  by (simp add: generate_path1_def)

lemma generate_attn_y_lengths_nth:
  "b < length dr \<Longrightarrow> generate_attn_y_lengths dr ! b = max 1 (sum_list (dr ! b))"
  by (simp add: generate_attn_y_lengths_def Let_def max_def)

lemma generate_attn_y_lengths_pos: "l \<in> set (generate_attn_y_lengths dr) \<Longrightarrow> 1 \<le> l"
  by (auto simp: generate_attn_y_lengths_def Let_def)

lemma length_generate_attn_y_lengths: "length (generate_attn_y_lengths dr) = length dr"
  by (simp add: generate_attn_y_lengths_def Let_def)

lemma generate_attn_None:
  "generate_attn dr x_mask None
     = Inr (generate_path dr
              (attn_mask x_mask
                 (map (\<lambda>l. mask_row l (nat (fold max (generate_attn_y_lengths dr) 0)))
                    (generate_attn_y_lengths dr))))"
proof -
  have "\<forall>l \<in> set (generate_attn_y_lengths dr). 0 \<le> l"
    using generate_attn_y_lengths_pos by fastforce
  then obtain m where "sequence_mask (generate_attn_y_lengths dr) None = Inr m"
      "to_dtype m = map (\<lambda>l. mask_row l (nat (fold max (generate_attn_y_lengths dr) 0)))
                      (generate_attn_y_lengths dr)"
    using sequence_mask_rows(2) by blast
  then show ?thesis by (simp add: generate_attn_def)
qed

text \<open>
  C10. Without an output mask, the output length that \<open>generate_attn\<close> derives for an
  utterance is the sum of its durations, raised to 1 when the sum is below 1; the
  generated expansion map then has at least one frame, and at least that many frames,
  also when all durations are zero or their sum is negative.
\<close>

theorem generate_attn_output_length:
  assumes batch: "length x_mask = length dr" and b: "b < length dr"
  shows "generate_attn_y_lengths dr ! b = max 1 (sum_list (dr ! b))
         \<and> (\<exists>attn. generate_attn dr x_mask None = Inr attn
               \<and> length attn = length dr
               \<and> length (attn ! b) = length (x_mask ! b)
               \<and> (\<forall>i < length (x_mask ! b).
                     length (attn ! b ! i) = nat (fold max (generate_attn_y_lengths dr) 0)
                     \<and> 1 \<le> length (attn ! b ! i)
                     \<and> max 1 (sum_list (dr ! b)) \<le> int (length (attn ! b ! i))))"
proof -
  let ?yl = "generate_attn_y_lengths dr"
  let ?n = "nat (fold max ?yl 0)"
  let ?Y = "map (\<lambda>l. mask_row l ?n) ?yl"
  let ?attn = "generate_path dr (attn_mask x_mask ?Y)"
  have yl: "?yl ! b = max 1 (sum_list (dr ! b))"
    using b by (rule generate_attn_y_lengths_nth)
  have mem: "?yl ! b \<in> set ?yl" using b by (simp add: length_generate_attn_y_lengths)
  have "?yl ! b \<le> fold max ?yl 0" using mem by (rule fold_max_ge)
  then have width: "max 1 (sum_list (dr ! b)) \<le> int ?n" using yl by simp
  then have width1: "1 \<le> ?n" by linarith
  have len: "length ?attn = length dr"
    using batch by (simp add: length_generate_path length_attn_mask length_generate_attn_y_lengths)
  have nth: "?attn ! b = generate_path1 (dr ! b) (outer_mask (x_mask ! b) (mask_row (?yl ! b) ?n))"
    using batch b
    by (simp add: generate_path_nth length_attn_mask attn_mask_nth length_generate_attn_y_lengths)
  have rows: "length (?attn ! b) = length (x_mask ! b)"
    by (simp add: nth length_generate_path1 length_outer_mask)
  have cols: "length (?attn ! b ! i) = ?n" if "i < length (x_mask ! b)" for i
    using that
    by (simp add: nth length_generate_path1_row length_outer_mask length_outer_mask_row
        length_mask_row)
  show ?thesis
    using yl generate_attn_None [of dr x_mask] len rows cols width width1
    by (intro conjI exI [of _ ?attn]) simp_all
qed

theorem generate_attn_output_length_witness:
  "length [[1, 1, 1 :: int]] = length [[0, 0, 0 :: int]] \<and> 0 < length [[0, 0, 0 :: int]]
   \<and> generate_attn_y_lengths [[0, 0, 0]] ! 0 = 1
   \<and> generate_attn [[0, 0, 0]] [[1, 1, 1]] None = Inr [[[0], [0], [0]]]
   \<and> 1 \<le> length ([[[0 :: int], [0], [0]]] ! 0 ! 0)"
  using generate_attn_output_length [of "[[1, 1, 1]]" "[[0, 0, 0]]" 0]
  by (simp add: generate_attn_def generate_attn_y_lengths_def sequence_mask_def to_dtype_def
      attn_mask_def outer_mask_def generate_path_def generate_path1_def Let_def upt_conv_Cons)

lemma sequence_mask_Inr_nonneg:
  "sequence_mask lens max_len = Inr m \<Longrightarrow> \<forall>l \<in> set lens. 0 \<le> l"
  by (auto simp: sequence_mask_def not_less split: if_splits)

lemma sequence_mask_Some_rows:
  assumes "sequence_mask lens (Some (int n)) = Inr m"
  shows "to_dtype m = map (\<lambda>l. mask_row l n) lens"
  using sequence_mask_rows(1) [OF sequence_mask_Inr_nonneg [OF assms], of n] assms by auto

lemma generate_path1_hard_alignment:
  assumes ha: "hard_alignment H Tx Ty (nat lx) (nat ly)"
  shows "generate_path1 (map sum_list H) (outer_mask (mask_row lx Tx) (mask_row ly Ty)) = H"
proof -
  obtain path where path: "H = path_matrix Tx Ty path" "sorted path" "length path = nat ly"
      "\<forall>p \<in> set path. p < nat lx"
    using hard_alignment_path [OF ha] by blast
  have bounds: "nat lx \<le> Tx" "nat ly \<le> Ty" using ha by (simp_all add: hard_alignment_def)
  let ?msk = "outer_mask (mask_row lx Tx) (mask_row ly Ty)"
  have valid: "\<forall>j < length path. path ! j < Tx \<and> ?msk ! (path ! j) ! j = 1"
  proof (intro allI impI)
    fix j assume j: "j < length path"
    then have p: "path ! j < nat lx" using path(4) by simp
    then have pT: "path ! j < Tx" using bounds(1) by simp
    have jT: "j < Ty" using j path(3) bounds(2) by simp
    have "int (path ! j) < lx" using p by linarith
    moreover have "int j < ly" using j path(3) by linarith
    ultimately have "?msk ! (path ! j) ! j = 1"
      using pT jT by (simp add: outer_mask_nth length_mask_row mask_row_nth)
    with pT show "path ! j < Tx \<and> ?msk ! (path ! j) ! j = 1" by simp
  qed
  have "generate_path1 (map sum_list (path_matrix Tx Ty path)) ?msk = path_matrix Tx Ty path"
  proof (rule generate_path1_path_matrix [OF path(2)])
    show "length path \<le> Ty" using path(3) bounds(2) by simp
    show "length ?msk = Tx" by (simp add: length_outer_mask length_mask_row)
    show "\<forall>i < Tx. length (?msk ! i) = Ty"
      by (simp add: length_outer_mask_row length_mask_row)
    show "\<forall>j < length path. path ! j < Tx \<and> ?msk ! (path ! j) ! j = 1" by (rule valid)
  qed
  then show ?thesis by (simp add: path(1))
qed

text \<open>
  C3. For every hard alignment \<open>H\<close> (one-hot per valid frame, monotonic, inside the
  valid region of the masks), regenerating the attention path from its per-phoneme
  durations, with the same input and output masks, returns \<open>H\<close> itself; the durations
  of the regenerated path are the input durations.
\<close>

theorem generate_attn_round_trip:
  assumes lens: "length H = B" "length x_lens = B" "length y_lens = B"
    and xm: "sequence_mask x_lens (Some (int Tx)) = Inr xm"
    and ym: "sequence_mask y_lens (Some (int Ty)) = Inr ym"
    and hard: "\<forall>b < B. hard_alignment (H ! b) Tx Ty (nat (x_lens ! b)) (nat (y_lens ! b))"
  shows "generate_attn (map (map sum_list) H) (to_dtype xm) (Some (to_dtype ym)) = Inr H
         \<and> (\<exists>attn. generate_attn (map (map sum_list) H) (to_dtype xm) (Some (to_dtype ym))
                      = Inr attn
                \<and> map (map sum_list) attn = map (map sum_list) H)"
proof -
  let ?dr = "map (map sum_list) H"
  let ?X = "map (\<lambda>l. mask_row l Tx) x_lens"
  let ?Y = "map (\<lambda>l. mask_row l Ty) y_lens"
  have X: "to_dtype xm = ?X" using xm by (rule sequence_mask_Some_rows)
  have Y: "to_dtype ym = ?Y" using ym by (rule sequence_mask_Some_rows)
  have eq: "generate_attn ?dr (to_dtype xm) (Some (to_dtype ym))
              = Inr (generate_path ?dr (attn_mask ?X ?Y))"
    by (simp add: generate_attn_def X Y)
  have "generate_path ?dr (attn_mask ?X ?Y) = H"
  proof (rule nth_equalityI)
    show "length (generate_path ?dr (attn_mask ?X ?Y)) = length H"
      using lens by (simp add: length_generate_path length_attn_mask)
  next
    fix b assume "b < length (generate_path ?dr (attn_mask ?X ?Y))"
    then have b: "b < B" using lens by (simp add: length_generate_path length_attn_mask)
    have "generate_path ?dr (attn_mask ?X ?Y) ! b
            = generate_path1 (map sum_list (H ! b))
                (outer_mask (mask_row (x_lens ! b) Tx) (mask_row (y_lens ! b) Ty))"
      using lens b by (simp add: generate_path_nth length_attn_mask attn_mask_nth)
    also have "\<dots> = H ! b"
      using hard b by (intro generate_path1_hard_alignment) simp
    finally show "generate_path ?dr (attn_mask ?X ?Y) ! b = H ! b" .
  qed
  with eq show ?thesis by simp
qed

lemma hard_alignment_example: "hard_alignment [[1, 1, 0], [0, 0, 1]] 2 3 2 3"
proof -
  have "hard_alignment (path_matrix 2 3 [0, 0, 1]) 2 3 2 (length [0, 0, 1 :: nat])"
    by (rule path_matrix_hard_alignment) simp_all
  moreover have "length [0, 0, 1 :: nat] = 3" by simp
  ultimately show ?thesis by (simp only: path_matrix_example)
qed

theorem generate_attn_round_trip_witness:
  "length [[[1, 1, 0], [0, 0, 1 :: int]]] = 1 \<and> length [2 :: int] = 1 \<and> length [3 :: int] = 1
   \<and> sequence_mask [2] (Some (int 2)) = Inr [[True, True]]
   \<and> sequence_mask [3] (Some (int 3)) = Inr [[True, True, True]]
   \<and> hard_alignment ([[[1, 1, 0], [0, 0, 1]]] ! 0) 2 3 (nat ([2] ! 0)) (nat ([3] ! 0))
   \<and> generate_attn (map (map sum_list) [[[1, 1, 0], [0, 0, 1]]]) (to_dtype [[True, True]])
        (Some (to_dtype [[True, True, True]])) = Inr [[[1, 1, 0], [0, 0, 1]]]"
proof -
  have x: "sequence_mask [2] (Some (int 2)) = Inr [[True, True]]"
    by (simp add: sequence_mask_def upt_conv_Cons)
  have y: "sequence_mask [3] (Some (int 3)) = Inr [[True, True, True]]"
    by (simp add: sequence_mask_def upt_conv_Cons)
  have h: "\<forall>b < 1. hard_alignment ([[[1, 1, 0], [0, 0, 1]]] ! b) 2 3 (nat ([2] ! b)) (nat ([3] ! b))"
    using hard_alignment_example by simp
  have "generate_attn (map (map sum_list) [[[1, 1, 0], [0, 0, 1]]]) (to_dtype [[True, True]])
          (Some (to_dtype [[True, True, True]])) = Inr [[[1, 1, 0], [0, 0, 1]]]"
    using generate_attn_round_trip [where B = 1, OF _ _ _ x y h] by simp
  then show ?thesis using x y hard_alignment_example by simp
qed

section \<open>Hard alignments: executable form\<close>

text \<open>
  The hard-alignment predicate in a form that evaluates: bounded quantifiers as tests
  over index lists, "exactly one" as a count.
\<close>

lemma ex1_upt_filter:
  "(\<exists>!i. i < n \<and> Q i) \<longleftrightarrow> length (filter Q [0..<n]) = 1"
proof (induction n)
  case 0
  show ?case by auto
next
  case (Suc n)
  show ?case
  proof (cases "Q n")
    case True
    have "(\<exists>!i. i < Suc n \<and> Q i) \<longleftrightarrow> (\<forall>i < n. \<not> Q i)"
    proof
      assume u: "\<exists>!i. i < Suc n \<and> Q i"
      show "\<forall>i < n. \<not> Q i"
      proof (intro allI impI notI)
        fix i assume i: "i < n" "Q i"
        then have "i < Suc n \<and> Q i" by simp
        moreover have "n < Suc n \<and> Q n" using True by simp
        ultimately have "i = n" using u by blast
        then show False using i(1) by simp
      qed
    next
      assume a: "\<forall>i < n. \<not> Q i"
      show "\<exists>!i. i < Suc n \<and> Q i"
      proof (rule ex1I [of _ n])
        show "n < Suc n \<and> Q n" using True by simp
      next
        fix i assume "i < Suc n \<and> Q i"
        then show "i = n" using a by (cases "i < n") simp_all
      qed
    qed
    moreover have "length (filter Q [0..<Suc n]) = 1 \<longleftrightarrow> (\<forall>i < n. \<not> Q i)"
      using True by (auto simp: filter_empty_conv)
    ultimately show ?thesis by simp
  next
    case False
    have "i < Suc n \<and> Q i \<longleftrightarrow> i < n \<and> Q i" for i
      using False by (cases "i = n") (auto simp: less_Suc_eq)
    then have "(\<exists>!i. i < Suc n \<and> Q i) \<longleftrightarrow> (\<exists>!i. i < n \<and> Q i)" by simp
    then show ?thesis using False Suc.IH by simp
  qed
qed

lemma list_all_upt: "list_all P [0..<n] \<longleftrightarrow> (\<forall>i < n. P i)"
  by (auto simp: list_all_iff)

lemma hard_alignment_code [code]:
  "hard_alignment H Tx Ty tx ty \<longleftrightarrow>
     length H = Tx \<and> list_all (\<lambda>i. length (H ! i) = Ty) [0..<Tx] \<and> tx \<le> Tx \<and> ty \<le> Ty
     \<and> list_all (\<lambda>i. list_all (\<lambda>j. H ! i ! j = 1 \<or> H ! i ! j = 0) [0..<Ty]) [0..<Tx]
     \<and> list_all (\<lambda>i. list_all (\<lambda>j. H ! i ! j \<noteq> 1 \<or> (i < tx \<and> j < ty)) [0..<Ty]) [0..<Tx]
     \<and> list_all (\<lambda>j. length (filter (\<lambda>i. H ! i ! j = 1) [0..<Tx]) = 1) [0..<ty]
     \<and> list_all (\<lambda>j'. list_all (\<lambda>j. list_all (\<lambda>i. list_all (\<lambda>i'.
            H ! i ! j \<noteq> 1 \<or> H ! i' ! j' \<noteq> 1 \<or> i \<le> i') [0..<Tx]) [0..<Tx]) [0..<Suc j'])
          [0..<ty]"
proof -
  have mono: "(\<forall>j j' i i'. j \<le> j' \<and> j' < ty \<and> i < Tx \<and> i' < Tx
                  \<and> H ! i ! j = 1 \<and> H ! i' ! j' = 1 \<longrightarrow> i \<le> i')
        \<longleftrightarrow> (\<forall>j' < ty. \<forall>j < Suc j'. \<forall>i < Tx. \<forall>i' < Tx.
               H ! i ! j \<noteq> 1 \<or> H ! i' ! j' \<noteq> 1 \<or> i \<le> i')" (is "?L \<longleftrightarrow> ?R")
  proof
    assume L: ?L
    show ?R
    proof (intro allI impI)
      fix j' j i i' assume a: "j' < ty" "j < Suc j'" "i < Tx" "i' < Tx"
      have "j \<le> j'" using a(2) by simp
      have "j \<le> j' \<and> j' < ty \<and> i < Tx \<and> i' < Tx \<and> H ! i ! j = 1 \<and> H ! i' ! j' = 1
              \<longrightarrow> i \<le> i'"
        using L by blast
      with a \<open>j \<le> j'\<close> show "H ! i ! j \<noteq> 1 \<or> H ! i' ! j' \<noteq> 1 \<or> i \<le> i'"
        by blast
    qed
  next
    assume R: ?R
    show ?L
    proof (intro allI impI)
      fix j j' i i'
      assume a: "j \<le> j' \<and> j' < ty \<and> i < Tx \<and> i' < Tx \<and> H ! i ! j = 1 \<and> H ! i' ! j' = 1"
      then have "j' < ty" "j < Suc j'" "i < Tx" "i' < Tx" by (simp_all add: less_Suc_eq_le)
      then have "H ! i ! j \<noteq> 1 \<or> H ! i' ! j' \<noteq> 1 \<or> i \<le> i'"
        using R [rule_format, of j' j i i'] by simp
      then show "i \<le> i'" using a by simp
    qed
  qed
  have region: "(\<forall>i < Tx. \<forall>j < Ty. H ! i ! j = 1 \<longrightarrow> i < tx \<and> j < ty)
        \<longleftrightarrow> (\<forall>i < Tx. \<forall>j < Ty. H ! i ! j \<noteq> 1 \<or> (i < tx \<and> j < ty))"
    by blast
  have one_hot: "(\<forall>j < ty. \<exists>!i. i < Tx \<and> H ! i ! j = 1)
        \<longleftrightarrow> (\<forall>j < ty. length (filter (\<lambda>i. H ! i ! j = 1) [0..<Tx]) = 1)"
    by (simp only: ex1_upt_filter)
  show ?thesis
    unfolding hard_alignment_def list_all_upt mono region one_hot by (rule refl)
qed

section \<open>The search on a diagonal-dominant soft alignment\<close>

text \<open>
  Section 8 of the specification, scenario 7: three phonemes, five frames, no padding;
  phoneme 0 owns frames 0 and 1, phoneme 1 owns frames 2 and 3, phoneme 2 owns frame 4.
  The potentials are 1 on the owned frames and \<open>exp (- 1)\<close> elsewhere. The search
  returns that alignment, whose per-phoneme durations are 2, 2, 1.
\<close>

lemma maximum_path1_scenario:
  "maximum_path1
     [[Num 1, Num 1, Num (exp (- 1)), Num (exp (- 1)), Num (exp (- 1))],
      [Num (exp (- 1)), Num (exp (- 1)), Num 1, Num 1, Num (exp (- 1))],
      [Num (exp (- 1)), Num (exp (- 1)), Num (exp (- 1)), Num (exp (- 1)), Num 1]]
     [[1, 1, 1, 1, 1], [1, 1, 1, 1, 1], [1, 1, 1, 1, 1]]
   = [[1, 1, 0, 0, 0], [0, 0, 1, 1, 0], [0, 0, 0, 0, 1]]"
  by (simp add: maximum_path1_def valid_phonemes_def valid_frames_def dim_frames_def
      path_matrix_def mask_at_def score_max_def predecessor_def Let_def upt_conv_Cons
      numeral_eq_Suc)

section \<open>Float32 arithmetic: lemmas\<close>















text \<open>
  The rounding on an ordinary value: one tenth is not a float32 value, the nearest one is
  13421773 times 2 to the power -27.
\<close>

lemma float32_ulp_exponent_bounds:
  assumes "0 < x" "2 powr of_int n \<le> x" "x < 2 powr (of_int n + 1)"
  shows "float32_ulp_exponent x = max (- 126) n - 23"
proof -
  have "of_int n \<le> log 2 x" using assms(1,2) by (simp add: le_log_iff)
  moreover have "log 2 x < of_int n + 1" using assms(1,3) by (simp add: log_less_iff)
  ultimately have "\<lfloor>log 2 x\<rfloor> = n" by linarith
  then show ?thesis using assms(1) by (simp add: float32_ulp_exponent_def)
qed

lemma float32_one_tenth: "float32 (1 / 10) = 13421773 / 134217728"
proof -
  have "float32_ulp_exponent (1 / 10) = max (- 126) (- 4) - 23"
    by (rule float32_ulp_exponent_bounds) (simp_all add: powr_minus_divide)
  then have e: "float32_ulp_exponent (1 / 10) = - 27" by simp
  have u: "(2::real) powi (- 27) = 1 / 134217728"
    by (simp add: power_int_minus inverse_eq_divide)
  have "torch_round ((1 / 10) / (1 / 134217728)) = 13421773"
    by (simp add: torch_round_def Let_def)
  then show ?thesis by (simp add: float32_def e u)
qed

section \<open>Pitch transforms: properties\<close>






end
